theory Spec2Isabelle
  imports Complex_Main "HOL-Library.Word" "HOL-Library.Signed_Division"
begin

unbundle bit_operations_syntax

section \<open>The win32 window backend of the video output (video/out/w32\_common.c)\<close>

text \<open>
  The development follows \<^verbatim>\<open>video/out/w32_common.c\<close>. The functions of the file that
  the GUI thread runs on \<^verbatim>\<open>struct vo_w32_state\<close> are embedded as functions on a record of
  that state. What the C code reads from or writes to the platform is made explicit:
  \<^item> the native window (its style word and the rectangle last given to
    \<^verbatim>\<open>SetWindowPos\<close>) is a record held in the field \<open>window\<close> (\<open>None\<close> is the
    \<^verbatim>\<open>NULL\<close> handle);
  \<^item> the monitors, the virtual screen and the window decoration metrics that the platform
    reports are a record \<open>w32_platform\<close>, a parameter of every function that asks for them;
  \<^item> the log and the input context are lists to which a call appends.

  C \<^verbatim>\<open>int\<close> and \<^verbatim>\<open>long\<close> values are HOL integers: the model agrees with every
  execution of the C code in which no signed operation overflows (C leaves the others
  undefined). Division of C integers truncates towards zero and is written \<open>sdiv\<close>.
  \<^verbatim>\<open>wchar_t\<close> is the 16-bit unsigned type of the platform, \<^verbatim>\<open>DWORD\<close> and \<^verbatim>\<open>UINT\<close> are
  32-bit words.
\<close>

subsection \<open>Data\<close>

text \<open>\<^verbatim>\<open>RECT\<close> of the platform and \<^verbatim>\<open>struct mp_rect\<close> of the player.\<close>

record RECT =
  left :: int
  top :: int
  right :: int
  bottom :: int

record mp_rect =
  x0 :: int
  y0 :: int
  x1 :: int
  y1 :: int

text \<open>The fields of \<^verbatim>\<open>struct mp_vo_opts\<close> that the modelled functions read.\<close>

record mp_vo_opts =
  fullscreen :: bool
  border :: bool
  ontop :: bool
  fit_border :: bool
  screen_id :: int
  fsscreen_id :: int

text \<open>
  Log lines: the level, the format string (without its final newline) and the integer
  arguments.
\<close>

datatype msg_level = MSGL_ERR | MSGL_INFO | MSGL_V

type_synonym log_line = "msg_level \<times> string \<times> int list"

text \<open>
  What \<^verbatim>\<open>mp_input_put_key\<close> receives. Only the named code that the modelled functions
  emit is distinguished; every other code is carried as a number.
\<close>

datatype mp_key = MP_INPUT_RELEASE_ALL | MP_KEY int

text \<open>The bits of \<^verbatim>\<open>event_flags\<close>, as a set of the named events.\<close>

datatype vo_event = VO_EVENT_EXPOSE | VO_EVENT_RESIZE | VO_EVENT_ICC_PROFILE_CHANGED
  | VO_EVENT_WIN_STATE

text \<open>The native window behind a \<^verbatim>\<open>HWND\<close>.\<close>

datatype z_layer = HWND_NOTOPMOST | HWND_TOPMOST

record native_window =
  gwl_style :: "32 word"
  wnd_layer :: z_layer
  wnd_rect :: RECT
  wnd_shown :: bool

text \<open>
  \<^verbatim>\<open>struct vo_w32_state\<close>. The thread handle, the dispatch queue, the hooks, the
  taskbar interfaces, the mouse tracking fields, the display frame rate and the colour
  profile are not part of the model; no modelled function reads them.
\<close>

record vo_w32_state =
  msgs :: "log_line list"
  opts :: mp_vo_opts
  input_ctx :: "mp_key list"
  terminate :: bool
  window :: "native_window option"
  parent :: nat
  screenrc :: mp_rect
  prev_width :: int
  prev_height :: int
  prev_x :: int
  prev_y :: int
  destroyed :: bool
  window_bounds_initialized :: bool
  current_fs :: bool
  window_x :: int
  window_y :: int
  dw :: int
  dh :: int
  disable_screensaver :: bool
  cursor_visible :: bool
  event_flags :: "vo_event set"
  high_surrogate :: int

text \<open>
  What the platform reports. \<open>frame_of_style s\<close> is the rectangle that
  \<^verbatim>\<open>AdjustWindowRect\<close> returns for the empty client rectangle at the origin under the
  window style \<open>s\<close>; \<open>monitors\<close> lists the monitor rectangles in the order of
  \<^verbatim>\<open>EnumDisplayMonitors\<close>; \<open>window_monitor\<close> is the rectangle of the monitor that
  \<^verbatim>\<open>MonitorFromWindow\<close> gives and \<open>primary_monitor\<close> that of the primary monitor;
  \<open>virtual_screen\<close> holds the four virtual-screen metrics (x, y, width, height).
\<close>

record w32_platform =
  frame_of_style :: "32 word \<Rightarrow> RECT"
  virtual_screen :: "int \<times> int \<times> int \<times> int"
  window_monitor :: RECT
  monitors :: "RECT list"
  primary_monitor :: RECT

subsection \<open>Logging and event flags\<close>

text \<open>
  \<^verbatim>\<open>signal_events\<close> sets the event bit; the wake-up of the player's thread that follows
  it in the C code is outside the state and is left out.
\<close>

definition mp_msg :: "msg_level \<Rightarrow> string \<Rightarrow> int list \<Rightarrow> vo_w32_state \<Rightarrow> vo_w32_state" where
  "mp_msg lev fmt args w = w\<lparr>msgs := msgs w @ [(lev, fmt, args)]\<rparr>"

definition mp_input_put_key :: "mp_key \<Rightarrow> vo_w32_state \<Rightarrow> vo_w32_state" where
  "mp_input_put_key k w = w\<lparr>input_ctx := input_ctx w @ [k]\<rparr>"

definition signal_events :: "vo_event \<Rightarrow> vo_w32_state \<Rightarrow> vo_w32_state" where
  "signal_events ev w = w\<lparr>event_flags := insert ev (event_flags w)\<rparr>"

subsection \<open>Window borders\<close>

text \<open>
  \<^verbatim>\<open>AdjustWindowRect\<close> grows a client rectangle by the decorations of the style: it adds,
  edge by edge, the frame it reports for the empty rectangle. \<^verbatim>\<open>GetWindowLong\<close> on the
  \<^verbatim>\<open>NULL\<close> handle fails and returns 0.
\<close>

definition AdjustWindowRect :: "w32_platform \<Rightarrow> RECT \<Rightarrow> 32 word \<Rightarrow> RECT" where
  "AdjustWindowRect pf rc style =
     (let f = frame_of_style pf style
      in \<lparr>left = left rc + left f, top = top rc + top f,
          right = right rc + right f, bottom = bottom rc + bottom f\<rparr>)"

definition GetWindowLong_STYLE :: "native_window option \<Rightarrow> 32 word" where
  "GetWindowLong_STYLE hwnd = (case hwnd of None \<Rightarrow> 0 | Some n \<Rightarrow> gwl_style n)"

definition SetWindowLong_STYLE :: "native_window option \<Rightarrow> 32 word \<Rightarrow> native_window option" where
  "SetWindowLong_STYLE hwnd style = map_option (\<lambda>n. n\<lparr>gwl_style := style\<rparr>) hwnd"

definition add_window_borders :: "w32_platform \<Rightarrow> native_window option \<Rightarrow> RECT \<Rightarrow> RECT" where
  "add_window_borders pf hwnd rc = AdjustWindowRect pf rc (GetWindowLong_STYLE hwnd)"

definition subtract_window_borders :: "w32_platform \<Rightarrow> native_window option \<Rightarrow> RECT \<Rightarrow> RECT" where
  "subtract_window_borders pf hwnd rc =
     (let b = add_window_borders pf hwnd \<lparr>left = 0, top = 0, right = 0, bottom = 0\<rparr>
      in \<lparr>left = left rc - left b, top = top rc - top b,
          right = right rc - right b, bottom = bottom rc - bottom b\<rparr>)"

subsection \<open>UTF-16 decoding\<close>

definition IS_HIGH_SURROGATE :: "16 word \<Rightarrow> bool" where
  "IS_HIGH_SURROGATE c \<longleftrightarrow> 0xd800 \<le> c \<and> c \<le> 0xdbff"

definition IS_LOW_SURROGATE :: "16 word \<Rightarrow> bool" where
  "IS_LOW_SURROGATE c \<longleftrightarrow> 0xdc00 \<le> c \<and> c \<le> 0xdfff"

definition decode_surrogate_pair :: "16 word \<Rightarrow> 16 word \<Rightarrow> int" where
  "decode_surrogate_pair lead trail =
     0x10000 + (push_bit 10 (uint lead AND 0x3ff) OR (uint trail AND 0x3ff))"

text \<open>The result is the new state and the returned code point (0: no character).\<close>

definition decode_utf16 :: "vo_w32_state \<Rightarrow> 16 word \<Rightarrow> vo_w32_state \<times> int" where
  "decode_utf16 w c =
     (if IS_HIGH_SURROGATE c then (w\<lparr>high_surrogate := uint c\<rparr>, 0)
      else if IS_LOW_SURROGATE c then
        (if high_surrogate w = 0 then (mp_msg MSGL_ERR ''Invalid UTF-16 input'' [] w, 0)
         else (w\<lparr>high_surrogate := 0\<rparr>,
               decode_surrogate_pair (word_of_int (high_surrogate w)) c))
      else if high_surrogate w \<noteq> 0 then
        (mp_msg MSGL_ERR ''Invalid UTF-16 input'' [] (w\<lparr>high_surrogate := 0\<rparr>), 0)
      else (w, uint c))"

subsection \<open>Key release\<close>

definition VK_SHIFT :: "32 word" where "VK_SHIFT = 0x10"
definition VK_CONTROL :: "32 word" where "VK_CONTROL = 0x11"
definition VK_MENU :: "32 word" where "VK_MENU = 0x12"

definition handle_key_up :: "vo_w32_state \<Rightarrow> 32 word \<Rightarrow> 32 word \<Rightarrow> vo_w32_state" where
  "handle_key_up w vkey scancode =
     (if vkey = VK_MENU \<or> vkey = VK_CONTROL \<or> vkey = VK_SHIFT then w
      else mp_input_put_key MP_INPUT_RELEASE_ALL w)"

subsection \<open>Double precision arithmetic\<close>

text \<open>
  The oversized-window computation of \<^verbatim>\<open>reinit_window_state\<close> is done in \<^verbatim>\<open>double\<close>.
  A finite double is the rational number it denotes; every operation computes the exact
  result and rounds it to the nearest number with a 53-bit significand, ties to even
  (\<open>rnd\<close>): binary64 arithmetic with no excess precision, as the SSE unit of the
  platform does it. The operands here come from 32-bit integers, so the exponent range of
  the format is never reached and is not modelled. The sign of a zero is not tracked: it could
  only decide the sign of an infinity, and the conversion to \<^verbatim>\<open>long\<close> is undefined for
  both infinities.
\<close>

text \<open>The number of binary digits of a positive integer.\<close>

function bitlen :: "int \<Rightarrow> int" where
  "bitlen n = (if n \<le> 0 then 0 else 1 + bitlen (n div 2))"
  by pat_completeness auto
termination
  by (relation "measure nat") auto

declare bitlen.simps [simp del]

definition pow2 :: "int \<Rightarrow> rat" where
  "pow2 e = (if 0 \<le> e then 2 ^ nat e else 1 / 2 ^ nat (- e))"

text \<open>\<open>ilog2 x\<close> is the binary exponent of \<open>x \<noteq> 0\<close>: \<open>2 ^ ilog2 x \<le> \<bar>x\<bar> < 2 ^ (ilog2 x + 1)\<close>.\<close>

definition ilog2 :: "rat \<Rightarrow> int" where
  "ilog2 x = (if 1 \<le> \<bar>x\<bar> then bitlen \<lfloor>\<bar>x\<bar>\<rfloor> - 1 else - bitlen (\<lceil>1 / \<bar>x\<bar>\<rceil> - 1))"

text \<open>Rounding to the nearest integer, ties to even.\<close>

definition rne :: "rat \<Rightarrow> int" where
  "rne m =
     (let f = \<lfloor>m\<rfloor>; r = m - of_int f
      in if r < 1 / 2 then f else if 1 / 2 < r then f + 1
         else if even f then f else f + 1)"

definition rnd :: "rat \<Rightarrow> rat" where
  "rnd x = (if x = 0 then 0
            else let u = pow2 (ilog2 x - 52) in of_int (rne (x / u)) * u)"

datatype double = Fin rat | PInf | NInf | NaN

definition double_of_int :: "int \<Rightarrow> double" where
  "double_of_int i = Fin (rnd (of_int i))"

fun double_div :: "double \<Rightarrow> double \<Rightarrow> double" where
  "double_div NaN _ = NaN"
| "double_div _ NaN = NaN"
| "double_div (Fin a) (Fin b) =
     (if b = 0 then (if a = 0 then NaN else if 0 < a then PInf else NInf)
      else Fin (rnd (a / b)))"
| "double_div (Fin a) _ = Fin 0"
| "double_div PInf (Fin b) = (if 0 \<le> b then PInf else NInf)"
| "double_div NInf (Fin b) = (if 0 \<le> b then NInf else PInf)"
| "double_div _ _ = NaN"

fun double_mul :: "double \<Rightarrow> double \<Rightarrow> double" where
  "double_mul NaN _ = NaN"
| "double_mul _ NaN = NaN"
| "double_mul (Fin a) (Fin b) = Fin (rnd (a * b))"
| "double_mul (Fin a) PInf = (if a = 0 then NaN else if 0 < a then PInf else NInf)"
| "double_mul (Fin a) NInf = (if a = 0 then NaN else if 0 < a then NInf else PInf)"
| "double_mul PInf (Fin b) = (if b = 0 then NaN else if 0 < b then PInf else NInf)"
| "double_mul NInf (Fin b) = (if b = 0 then NaN else if 0 < b then NInf else PInf)"
| "double_mul PInf PInf = PInf"
| "double_mul NInf NInf = PInf"
| "double_mul _ _ = NInf"

fun double_gt :: "double \<Rightarrow> double \<Rightarrow> bool" where
  "double_gt NaN _ = False"
| "double_gt _ NaN = False"
| "double_gt (Fin a) (Fin b) = (b < a)"
| "double_gt (Fin a) NInf = True"
| "double_gt PInf (Fin b) = True"
| "double_gt PInf NInf = True"
| "double_gt _ _ = False"

text \<open>
  Conversion of a double to \<^verbatim>\<open>long\<close> (32 bits on the platform) drops the fraction. C
  leaves it undefined when the value is not finite or the integer does not fit: \<open>None\<close>.
\<close>

fun to_long :: "double \<Rightarrow> int option" where
  "to_long (Fin r) =
     (let t = (if 0 \<le> r then \<lfloor>r\<rfloor> else \<lceil>r\<rceil>)
      in if - (2 ^ 31) \<le> t \<and> t < 2 ^ 31 then Some t else None)"
| "to_long _ = None"

subsection \<open>Screen rectangle and window style\<close>

text \<open>
  \<^verbatim>\<open>get_monitor\<close> walks the monitors with \<^verbatim>\<open>get_monitor_proc\<close>, counting from 0, and
  stops at the target; the result is \<^verbatim>\<open>NULL\<close> when the walk ends before.
\<close>

fun get_monitor_proc :: "RECT list \<Rightarrow> int \<Rightarrow> int \<Rightarrow> RECT option" where
  "get_monitor_proc [] i target = None"
| "get_monitor_proc (mon # mons) i target =
     (if i = target then Some mon else get_monitor_proc mons (i + 1) target)"

definition get_monitor :: "w32_platform \<Rightarrow> int \<Rightarrow> RECT option" where
  "get_monitor pf target = get_monitor_proc (monitors pf) 0 target"

definition rcMonitor :: "RECT \<Rightarrow> mp_rect" where
  "rcMonitor m = \<lparr>x0 = left m, y0 = top m, x1 = right m, y1 = bottom m\<rparr>"

definition update_screen_rect :: "w32_platform \<Rightarrow> vo_w32_state \<Rightarrow> vo_w32_state" where
  "update_screen_rect pf w =
     (let screen = (if current_fs w then fsscreen_id (opts w) else screen_id (opts w))
      in if current_fs w \<and> screen = - 2 then
           (case virtual_screen pf of (x, y, cx, cy) \<Rightarrow>
              w\<lparr>screenrc := \<lparr>x0 = x, y0 = y, x1 = cx + x, y1 = cy + y\<rparr>\<rparr>)
         else if screen = - 1 then w\<lparr>screenrc := rcMonitor (window_monitor pf)\<rparr>
         else (case get_monitor pf screen of
                 Some mon \<Rightarrow> w\<lparr>screenrc := rcMonitor mon\<rparr>
               | None \<Rightarrow>
                   (mp_msg MSGL_INFO ''Screen %d does not exist, falling back to primary''
                      [screen] w)\<lparr>screenrc := rcMonitor (primary_monitor pf)\<rparr>))"

definition WS_OVERLAPPED :: "32 word" where "WS_OVERLAPPED = 0"
definition WS_OVERLAPPEDWINDOW :: "32 word" where "WS_OVERLAPPEDWINDOW = 0xCF0000"
definition WS_SIZEBOX :: "32 word" where "WS_SIZEBOX = 0x40000"

definition update_style :: "vo_w32_state \<Rightarrow> 32 word \<Rightarrow> 32 word" where
  "update_style w style =
     (let NO_FRAME = WS_OVERLAPPED;
          FRAME = WS_OVERLAPPEDWINDOW OR WS_SIZEBOX;
          style = style AND NOT (NO_FRAME OR FRAME)
      in style OR (if border (opts w) \<and> \<not> current_fs w then FRAME else NO_FRAME))"

definition SetWindowPos ::
  "native_window option \<Rightarrow> z_layer \<Rightarrow> int \<Rightarrow> int \<Rightarrow> int \<Rightarrow> int \<Rightarrow> native_window option" where
  "SetWindowPos hwnd layer x y cx cy =
     map_option (\<lambda>n. n\<lparr>wnd_layer := layer,
                       wnd_rect := \<lparr>left = x, top = y, right = x + cx, bottom = y + cy\<rparr>,
                       wnd_shown := True\<rparr>) hwnd"

subsection \<open>Reconfiguring the window\<close>

text \<open>
  The letterbox step of \<^verbatim>\<open>reinit_window_state\<close>: fit the aspect ratio of the client
  area, \<open>c_w\<close> by \<open>c_h\<close>, into the available size \<open>n_w\<close> by \<open>n_h\<close>. The result is the new
  \<open>n_w\<close> and \<open>n_h\<close>; it is \<open>None\<close> where the conversion of the double to \<^verbatim>\<open>long\<close> is
  undefined.
\<close>

definition letterbox :: "int \<Rightarrow> int \<Rightarrow> int \<Rightarrow> int \<Rightarrow> (int \<times> int) option" where
  "letterbox c_w c_h n_w n_h =
     (let asp = double_div (double_of_int c_w) (double_of_int c_h);
          s_asp = double_div (double_of_int n_w) (double_of_int n_h)
      in if double_gt asp s_asp
         then map_option (\<lambda>h. (n_w, h)) (to_long (double_div (double_of_int n_w) asp))
         else map_option (\<lambda>w. (w, n_h)) (to_long (double_mul (double_of_int n_h) asp)))"

text \<open>
  The branch of \<^verbatim>\<open>reinit_window_state\<close> taken when the requested size is larger than
  the screen: \<open>r\<close> is the requested window rectangle with its borders, \<open>cr\<close> the client
  rectangle. It yields the state with the new client size and position, and the new
  window rectangle, centred where the requested one was.
\<close>

definition reinit_larger_than_screen ::
  "w32_platform \<Rightarrow> vo_w32_state \<Rightarrow> RECT \<Rightarrow> RECT \<Rightarrow> int \<Rightarrow> int \<Rightarrow> (vo_w32_state \<times> RECT) option" where
  "reinit_larger_than_screen pf w r cr screen_w screen_h =
     (let w = mp_msg MSGL_V ''requested window size larger than the screen'' [] w;
          n_w = (if fit_border (opts w)
                 then screen_w - (right r - right cr) - (left cr - left r) else screen_w);
          n_h = (if fit_border (opts w)
                 then screen_h - (bottom r - bottom cr) - (top cr - top r) else screen_h)
      in case letterbox (right cr - left cr) (bottom cr - top cr) n_w n_h of
           None \<Rightarrow> None
         | Some (n_w, n_h) \<Rightarrow>
             (let w = w\<lparr>dw := n_w, dh := n_h\<rparr>;
                  o_cx = left r + (right r - left r) sdiv 2;
                  o_cy = top r + (bottom r - top r) sdiv 2;
                  r = add_window_borders pf (window w)
                        \<lparr>left = 0, top = 0, right = n_w, bottom = n_h\<rparr>;
                  b_top = - top r;
                  b_left = - left r;
                  n_w = right r - left r;
                  n_h = bottom r - top r;
                  r_left = o_cx - n_w sdiv 2;
                  r_top = o_cy - n_h sdiv 2;
                  r = \<lparr>left = r_left, top = r_top, right = r_left + n_w, bottom = r_top + n_h\<rparr>
              in Some (w\<lparr>window_x := left r + b_left, window_y := top r + b_top\<rparr>, r)))"

text \<open>
  \<^verbatim>\<open>reinit_window_state\<close>: update the position, size and border style of the window.
  Two blocks of its body are definitions of their own, besides the one above.

  \<open>reinit_fs_bounds\<close> is the \<^verbatim>\<open>if (w32->current_fs) ... else ...\<close> block: on the switch to
  fullscreen it saves the window bounds and then takes the bounds of the screen; on the
  switch back it restores the saved bounds.
\<close>

definition reinit_fs_bounds :: "bool \<Rightarrow> int \<Rightarrow> int \<Rightarrow> vo_w32_state \<Rightarrow> vo_w32_state" where
  "reinit_fs_bounds toggle_fs screen_w screen_h w =
     (if current_fs w then
        (let w = (if toggle_fs then
                    mp_msg MSGL_V ''save window bounds: %d:%d:%d:%d''
                      [window_x w, window_y w, dw w, dh w]
                      (w\<lparr>prev_width := dw w, prev_height := dh w,
                         prev_x := window_x w, prev_y := window_y w\<rparr>)
                  else w)
         in w\<lparr>window_x := x0 (screenrc w), window_y := y0 (screenrc w),
              dw := screen_w, dh := screen_h\<rparr>)
      else if toggle_fs then
        (mp_msg MSGL_V ''restore window bounds: %d:%d:%d:%d''
           [prev_x w, prev_y w, prev_width w, prev_height w] w)
         \<lparr>dw := prev_width w, dh := prev_height w,
          window_x := prev_x w, window_y := prev_y w\<rparr>
      else w)"

text \<open>
  \<open>reinit_set_window_pos\<close> is the end of the function: the log line, \<^verbatim>\<open>SetWindowPos\<close>
  with the window rectangle \<open>r\<close>, and the resize event.
\<close>

definition reinit_set_window_pos :: "z_layer \<Rightarrow> vo_w32_state \<times> RECT \<Rightarrow> vo_w32_state" where
  "reinit_set_window_pos layer wr =
     (case wr of (w, r) \<Rightarrow>
        signal_events VO_EVENT_RESIZE
          ((mp_msg MSGL_V ''reset window bounds: %d:%d:%d:%d''
              [left r, top r, right r - left r, bottom r - top r] w)
           \<lparr>window := SetWindowPos (window w) layer (left r) (top r)
                        (right r - left r) (bottom r - top r)\<rparr>))"

text \<open>
  The result is \<open>None\<close> where the C code converts a double that \<^verbatim>\<open>long\<close> cannot hold.
  The call that marks the window as fullscreen for the taskbar is left out.
\<close>

definition reinit_window_state :: "w32_platform \<Rightarrow> vo_w32_state \<Rightarrow> vo_w32_state option" where
  "reinit_window_state pf w0 =
     (if parent w0 \<noteq> 0 then Some w0
      else
        let new_fs = fullscreen (opts w0);
            toggle_fs = (current_fs w0 \<noteq> new_fs);
            w = w0\<lparr>current_fs := new_fs\<rparr>;
            style = update_style w (GetWindowLong_STYLE (window w));
            layer = (if ontop (opts w) then HWND_TOPMOST else HWND_NOTOPMOST);
            w = update_screen_rect pf w;
            screen_w = x1 (screenrc w) - x0 (screenrc w);
            screen_h = y1 (screenrc w) - y0 (screenrc w);
            w = reinit_fs_bounds toggle_fs screen_w screen_h w;
            r = \<lparr>left = window_x w, top = window_y w,
                 right = window_x w + dw w, bottom = window_y w + dh w\<rparr>;
            w = w\<lparr>window := SetWindowLong_STYLE (window w) style\<rparr>;
            cr = r;
            r = add_window_borders pf (window w) r;
            o_w = (if fit_border (opts w) then right r - left r else right cr - left cr);
            o_h = (if fit_border (opts w) then bottom r - top r else bottom cr - top cr)
        in map_option (reinit_set_window_pos layer)
             (if \<not> current_fs w \<and> (screen_w < o_w \<or> screen_h < o_h)
              then reinit_larger_than_screen pf w r cr screen_w screen_h
              else Some (w, r)))"

subsection \<open>Control requests\<close>

text \<open>
  The requests of \<^verbatim>\<open>gui_thread_control\<close> that act on the modelled state, each with the
  argument it reads; \<open>VOCTRL_unhandled\<close> stands for a request that the \<^verbatim>\<open>switch\<close> has
  no case for. The requests that only query or drive the platform (minimised state,
  window title, taskbar progress, display rate and names, colour profile) are not
  modelled, and of the modelled requests the calls that only drive the platform
  (\<^verbatim>\<open>SetCursor\<close>, \<^verbatim>\<open>SetThreadExecutionState\<close>) are left out. The result is the returned status, the new state and the pair that
  \<^verbatim>\<open>VOCTRL_GET_UNFS_WINDOW_SIZE\<close> stores through its argument (\<open>None\<close>: nothing stored).
\<close>

datatype voctrl =
    VOCTRL_FULLSCREEN
  | VOCTRL_ONTOP
  | VOCTRL_BORDER
  | VOCTRL_GET_UNFS_WINDOW_SIZE
  | VOCTRL_SET_UNFS_WINDOW_SIZE int int
  | VOCTRL_SET_CURSOR_VISIBILITY bool
  | VOCTRL_KILL_SCREENSAVER
  | VOCTRL_RESTORE_SCREENSAVER
  | VOCTRL_unhandled

datatype vo_status = VO_TRUE | VO_FALSE | VO_NOTIMPL

type_synonym control_result = "vo_status \<times> vo_w32_state \<times> (int \<times> int) option"

definition handled :: "vo_w32_state option \<Rightarrow> control_result option" where
  "handled r = map_option (\<lambda>w. (VO_TRUE, w, None)) r"

fun gui_thread_control :: "w32_platform \<Rightarrow> vo_w32_state \<Rightarrow> voctrl \<Rightarrow> control_result option" where
  "gui_thread_control pf w VOCTRL_FULLSCREEN =
     (if fullscreen (opts w) \<noteq> current_fs w then handled (reinit_window_state pf w)
      else Some (VO_TRUE, w, None))"
| "gui_thread_control pf w VOCTRL_ONTOP = handled (reinit_window_state pf w)"
| "gui_thread_control pf w VOCTRL_BORDER = handled (reinit_window_state pf w)"
| "gui_thread_control pf w VOCTRL_GET_UNFS_WINDOW_SIZE =
     (if \<not> window_bounds_initialized w then Some (VO_FALSE, w, None)
      else Some (VO_TRUE, w,
                 Some (if current_fs w then prev_width w else dw w,
                       if current_fs w then prev_height w else dh w)))"
| "gui_thread_control pf w (VOCTRL_SET_UNFS_WINDOW_SIZE s0 s1) =
     (if \<not> window_bounds_initialized w then Some (VO_FALSE, w, None)
      else
        let w = (if current_fs w then
                   w\<lparr>prev_x := prev_x w + (prev_width w sdiv 2 - s0 sdiv 2),
                     prev_y := prev_y w + (prev_height w sdiv 2 - s1 sdiv 2),
                     prev_width := s0, prev_height := s1\<rparr>
                 else
                   w\<lparr>window_x := window_x w + (dw w sdiv 2 - s0 sdiv 2),
                     window_y := window_y w + (dh w sdiv 2 - s1 sdiv 2),
                     dw := s0, dh := s1\<rparr>)
        in handled (reinit_window_state pf w))"
| "gui_thread_control pf w (VOCTRL_SET_CURSOR_VISIBILITY v) =
     Some (VO_TRUE, w\<lparr>cursor_visible := v\<rparr>, None)"
| "gui_thread_control pf w VOCTRL_KILL_SCREENSAVER =
     Some (VO_TRUE, w\<lparr>disable_screensaver := True\<rparr>, None)"
| "gui_thread_control pf w VOCTRL_RESTORE_SCREENSAVER =
     Some (VO_TRUE, w\<lparr>disable_screensaver := False\<rparr>, None)"
| "gui_thread_control pf w VOCTRL_unhandled = Some (VO_NOTIMPL, w, None)"

text \<open>
  \<^verbatim>\<open>struct vo\<close>, of which \<^verbatim>\<open>do_control\<close> writes the size of the video output as the
  player sees it.
\<close>

record vo =
  dwidth :: int
  dheight :: int

text \<open>
  \<^verbatim>\<open>do_control\<close> is what \<^verbatim>\<open>vo_w32_control\<close> runs for every request other than
  \<^verbatim>\<open>VOCTRL_CHECK_EVENTS\<close>: the request itself, then the exchange of \<^verbatim>\<open>event_flags\<close>
  with zero, the flags read being added to the caller's \<^verbatim>\<open>*events\<close>, then the copy of
  the window size into \<^verbatim>\<open>struct vo\<close> when the resize event is among them. The result is
  the returned status, the new state, the new \<^verbatim>\<open>struct vo\<close>, the caller's events and
  what the request stored through its argument.
\<close>

type_synonym request_result =
  "vo_status \<times> vo_w32_state \<times> vo \<times> vo_event set \<times> (int \<times> int) option"

definition do_control ::
  "w32_platform \<Rightarrow> vo_w32_state \<Rightarrow> vo \<Rightarrow> vo_event set \<Rightarrow> voctrl \<Rightarrow> request_result option" where
  "do_control pf w v events request =
     (case gui_thread_control pf w request of
        None \<Rightarrow> None
      | Some (ret, w, out) \<Rightarrow>
          let events = events \<union> event_flags w;
              w = w\<lparr>event_flags := {}\<rparr>;
              v = (if VO_EVENT_RESIZE \<in> events then v\<lparr>dwidth := dw w, dheight := dh w\<rparr>
                   else v)
          in Some (ret, w, v, events, out))"

text \<open>
  The caller of \<^verbatim>\<open>VOCTRL_FULLSCREEN\<close> stores the wanted mode in the options before it
  sends the request. \<open>enter_exit_fullscreen\<close> is the request for fullscreen followed by
  the request for windowed mode, the platform being \<open>pf1\<close> at the first and \<open>pf2\<close> at
  the second.
\<close>

definition set_fullscreen :: "w32_platform \<Rightarrow> bool \<Rightarrow> vo_w32_state \<Rightarrow> control_result option" where
  "set_fullscreen pf fs w =
     gui_thread_control pf (w\<lparr>opts := (opts w)\<lparr>fullscreen := fs\<rparr>\<rparr>) VOCTRL_FULLSCREEN"

definition enter_exit_fullscreen ::
  "w32_platform \<Rightarrow> w32_platform \<Rightarrow> vo_w32_state \<Rightarrow> vo_w32_state option" where
  "enter_exit_fullscreen pf1 pf2 w =
     (case set_fullscreen pf1 True w of
        None \<Rightarrow> None
      | Some (st, w1, out) \<Rightarrow> map_option (fst \<circ> snd) (set_fullscreen pf2 False w1))"

subsection \<open>Observations\<close>

definition geometry :: "vo_w32_state \<Rightarrow> int \<times> int \<times> int \<times> int" where
  "geometry w = (window_x w, window_y w, dw w, dh w)"

definition prev_bounds :: "vo_w32_state \<Rightarrow> int \<times> int \<times> int \<times> int" where
  "prev_bounds w = (prev_x w, prev_y w, prev_width w, prev_height w)"

definition state_of :: "control_result option \<Rightarrow> vo_w32_state option" where
  "state_of res = map_option (fst \<circ> snd) res"

text \<open>The rectangle last requested for the native window.\<close>

definition window_rect :: "vo_w32_state \<Rightarrow> RECT option" where
  "window_rect w = map_option wnd_rect (window w)"

definition rect_width :: "RECT \<Rightarrow> int" where
  "rect_width r = right r - left r"

definition rect_height :: "RECT \<Rightarrow> int" where
  "rect_height r = bottom r - top r"

text \<open>The centre of a rectangle, as \<^verbatim>\<open>reinit_window_state\<close> computes it.\<close>

definition rect_centre :: "RECT \<Rightarrow> int \<times> int" where
  "rect_centre r = (left r + (right r - left r) sdiv 2, top r + (bottom r - top r) sdiv 2)"

subsection \<open>A desktop to run the functions on\<close>

text \<open>
  One monitor of 1920 by 1080 pixels at the origin. A window whose style has a caption
  gets a frame of 8 pixels at the left, right and bottom and of 31 pixels at the top;
  a window without caption gets none.
\<close>

definition desktop :: w32_platform where
  "desktop =
     \<lparr>frame_of_style = (\<lambda>s. if s AND 0xC00000 = 0xC00000
                             then \<lparr>left = - 8, top = - 31, right = 8, bottom = 8\<rparr>
                             else \<lparr>left = 0, top = 0, right = 0, bottom = 0\<rparr>),
      virtual_screen = (0, 0, 1920, 1080),
      window_monitor = \<lparr>left = 0, top = 0, right = 1920, bottom = 1080\<rparr>,
      monitors = [\<lparr>left = 0, top = 0, right = 1920, bottom = 1080\<rparr>],
      primary_monitor = \<lparr>left = 0, top = 0, right = 1920, bottom = 1080\<rparr>\<rparr>"

definition player_opts :: mp_vo_opts where
  "player_opts = \<lparr>fullscreen = False, border = True, ontop = False, fit_border = True,
                  screen_id = - 1, fsscreen_id = - 1\<rparr>"

text \<open>A bordered window in windowed mode with the client area at \<open>(x, y)\<close>, of size \<open>w\<close> by \<open>h\<close>.\<close>

definition new_window :: "int \<Rightarrow> int \<Rightarrow> int \<Rightarrow> int \<Rightarrow> vo_w32_state" where
  "new_window x y w h =
     \<lparr>msgs = [], opts = player_opts, input_ctx = [], terminate = False,
      window = Some \<lparr>gwl_style = 0xCF0000, wnd_layer = HWND_NOTOPMOST,
                     wnd_rect = \<lparr>left = x - 8, top = y - 31,
                                 right = x + w + 8, bottom = y + h + 8\<rparr>,
                     wnd_shown = True\<rparr>,
      parent = 0, screenrc = \<lparr>x0 = 0, y0 = 0, x1 = 1920, y1 = 1080\<rparr>,
      prev_width = w, prev_height = h, prev_x = x, prev_y = y,
      destroyed = False, window_bounds_initialized = True, current_fs = False,
      window_x = x, window_y = y, dw = w, dh = h,
      disable_screensaver = False, cursor_visible = True, event_flags = {},
      high_surrogate = 0\<rparr>"

text \<open>
  The window created at (100, 100) with 800 by 600 pixels, moved by the user to
  (300, 200), with fullscreen wanted; and the state in which the reconfiguration
  leaves it on \<open>desktop\<close>.
\<close>

definition moved_window :: vo_w32_state where
  "moved_window =
     (new_window 100 100 800 600)
       \<lparr>window_x := 300, window_y := 200, opts := player_opts\<lparr>fullscreen := True\<rparr>\<rparr>"

definition fullscreen_window :: vo_w32_state where
  "fullscreen_window =
     \<lparr>msgs = [(MSGL_V, ''save window bounds: %d:%d:%d:%d'', [300, 200, 800, 600]),
              (MSGL_V, ''reset window bounds: %d:%d:%d:%d'', [0, 0, 1920, 1080])],
      opts = player_opts\<lparr>fullscreen := True\<rparr>, input_ctx = [], terminate = False,
      window = Some \<lparr>gwl_style = 0, wnd_layer = HWND_NOTOPMOST,
                     wnd_rect = \<lparr>left = 0, top = 0, right = 1920, bottom = 1080\<rparr>,
                     wnd_shown = True\<rparr>,
      parent = 0, screenrc = \<lparr>x0 = 0, y0 = 0, x1 = 1920, y1 = 1080\<rparr>,
      prev_width = 800, prev_height = 600, prev_x = 300, prev_y = 200,
      destroyed = False, window_bounds_initialized = True, current_fs = True,
      window_x = 0, window_y = 0, dw = 1920, dh = 1080,
      disable_screensaver = False, cursor_visible = True,
      event_flags = {VO_EVENT_RESIZE}, high_surrogate = 0\<rparr>"

text \<open>
  A bordered window at the origin that is to show a video of 3840 by 2160 pixels, a
  client area larger than the screen of \<open>desktop\<close>, with \<^verbatim>\<open>fit_border\<close> as given.
\<close>

definition oversized_window :: "bool \<Rightarrow> vo_w32_state" where
  "oversized_window fit = (new_window 0 0 3840 2160)\<lparr>opts := player_opts\<lparr>fit_border := fit\<rparr>\<rparr>"

text \<open>
  Two monitors of 1920 by 1080 pixels side by side; the window belongs to the left one.
  \<open>spanning_window\<close> is a window that the user has stretched over both.
\<close>

definition dual_desktop :: w32_platform where
  "dual_desktop =
     desktop\<lparr>virtual_screen := (0, 0, 3840, 1080),
              monitors := [\<lparr>left = 0, top = 0, right = 1920, bottom = 1080\<rparr>,
                           \<lparr>left = 1920, top = 0, right = 3840, bottom = 1080\<rparr>]\<rparr>"

definition spanning_window :: vo_w32_state where
  "spanning_window = new_window 200 100 3000 900"


text \<open>
  A window embedded in a foreign parent window, with a client area of 640 by 480 pixels,
  after the window procedure has seen the first paint and size messages. The bounds
  of an embedded window are never initialised. \<open>video_output\<close> is the \<^verbatim>\<open>struct vo\<close> of a
  player that has configured a video of 1280 by 720 pixels.
\<close>

definition embedded_window :: vo_w32_state where
  "embedded_window =
     \<lparr>msgs = [(MSGL_V, ''resize window: %d:%d'', [640, 480])], opts = player_opts, input_ctx = [], terminate = False,
      window = Some \<lparr>gwl_style = 0x50000000, wnd_layer = HWND_NOTOPMOST,
                     wnd_rect = \<lparr>left = 0, top = 0, right = 640, bottom = 480\<rparr>,
                     wnd_shown = True\<rparr>,
      parent = 1, screenrc = \<lparr>x0 = 0, y0 = 0, x1 = 1920, y1 = 1080\<rparr>,
      prev_width = 0, prev_height = 0, prev_x = 0, prev_y = 0,
      destroyed = False, window_bounds_initialized = False, current_fs = False,
      window_x = 0, window_y = 0, dw = 640, dh = 480,
      disable_screensaver = False, cursor_visible = True,
      event_flags = {VO_EVENT_EXPOSE, VO_EVENT_RESIZE, VO_EVENT_WIN_STATE}, high_surrogate = 0\<rparr>"

definition video_output :: vo where
  "video_output = \<lparr>dwidth = 1280, dheight = 720\<rparr>"
section \<open>Rounding\<close>

text \<open>
  The rounded value of \<open>x\<close> differs from \<open>x\<close> by at most \<open>\<bar>x\<bar> / 2 ^ 53\<close>, and integers
  below \<open>2 ^ 53\<close> in magnitude are not changed. Both rest on the exponent that \<open>ilog2\<close>
  finds: \<open>2 ^ ilog2 x \<le> \<bar>x\<bar> < 2 ^ (ilog2 x + 1)\<close>, so that \<open>rnd\<close> keeps 53 binary digits.
\<close>

lemma pow2_powi: "pow2 e = 2 powi e"
  by (simp add: pow2_def power_int_def power_divide inverse_eq_divide)

lemma bitlen_bounds:
  "1 \<le> n \<Longrightarrow> 1 \<le> bitlen n \<and> 2 ^ nat (bitlen n - 1) \<le> n \<and> n < 2 ^ nat (bitlen n)"
proof (induction n rule: bitlen.induct)
  case (1 n)
  show ?case
  proof (cases "n = 1")
    case True
    have "bitlen 1 = 1"
      by (simp add: bitlen.simps [of 1] bitlen.simps [of 0])
    then show ?thesis using True by simp
  next
    case False
    with "1.prems" have n2: "2 \<le> n" by simp
    then have m: "1 \<le> n div 2" by simp
    from "1.IH" [OF _ m] n2
    have ih: "1 \<le> bitlen (n div 2)" "2 ^ nat (bitlen (n div 2) - 1) \<le> n div 2"
      "n div 2 < 2 ^ nat (bitlen (n div 2))"
      by simp_all
    have bl: "bitlen n = 1 + bitlen (n div 2)"
      using n2 by (simp add: bitlen.simps [of n])
    have suc: "nat (bitlen (n div 2)) = Suc (nat (bitlen (n div 2) - 1))"
      using ih(1) by simp
    have lo: "(2::int) ^ nat (bitlen (n div 2)) \<le> n"
    proof -
      have "(2::int) ^ nat (bitlen (n div 2)) = 2 * 2 ^ nat (bitlen (n div 2) - 1)"
        by (simp only: suc power_Suc)
      also have "\<dots> \<le> 2 * (n div 2)" using ih(2) by simp
      also have "\<dots> \<le> n" by simp
      finally show ?thesis .
    qed
    have hi: "n < 2 ^ nat (1 + bitlen (n div 2))"
    proof -
      have "n < 2 * (n div 2 + 1)" by simp
      also have "\<dots> \<le> 2 * 2 ^ nat (bitlen (n div 2))" using ih(3) by simp
      also have "\<dots> = 2 ^ nat (1 + bitlen (n div 2))"
        using ih(1) by (simp add: nat_add_distrib)
      finally show ?thesis .
    qed
    show ?thesis
      using ih(1) lo hi by (simp add: bl)
  qed
qed

lemma ilog2_le:
  assumes "x \<noteq> 0"
  shows "pow2 (ilog2 x) \<le> \<bar>x\<bar>"
proof (cases "1 \<le> \<bar>x\<bar>")
  case True
  then have n: "1 \<le> \<lfloor>\<bar>x\<bar>\<rfloor>" by simp
  from bitlen_bounds [OF n]
  have b: "1 \<le> bitlen \<lfloor>\<bar>x\<bar>\<rfloor>" "2 ^ nat (bitlen \<lfloor>\<bar>x\<bar>\<rfloor> - 1) \<le> \<lfloor>\<bar>x\<bar>\<rfloor>"
    by simp_all
  have "pow2 (ilog2 x) = 2 ^ nat (bitlen \<lfloor>\<bar>x\<bar>\<rfloor> - 1)"
    using True b(1) by (simp add: ilog2_def pow2_def)
  also have "\<dots> = of_int (2 ^ nat (bitlen \<lfloor>\<bar>x\<bar>\<rfloor> - 1))" by simp
  also have "\<dots> \<le> of_int \<lfloor>\<bar>x\<bar>\<rfloor>" using b(2) by (simp only: of_int_le_iff)
  also have "\<dots> \<le> \<bar>x\<bar>" by simp
  finally show ?thesis .
next
  case False
  then have small: "\<bar>x\<bar> < 1" by simp
  have pos: "0 < \<bar>x\<bar>" using assms by simp
  let ?m = "\<lceil>1 / \<bar>x\<bar>\<rceil> - 1"
  have "1 < 1 / \<bar>x\<bar>" using small pos by (simp add: field_simps)
  then have "1 < \<lceil>1 / \<bar>x\<bar>\<rceil>" by (simp add: less_ceiling_iff)
  then have m: "1 \<le> ?m" by simp
  from bitlen_bounds [OF m]
  have b: "1 \<le> bitlen ?m" "?m < 2 ^ nat (bitlen ?m)" by simp_all
  have "\<lceil>1 / \<bar>x\<bar>\<rceil> \<le> 2 ^ nat (bitlen ?m)"
    using b(2) by simp
  then have "1 / \<bar>x\<bar> \<le> of_int (2 ^ nat (bitlen ?m))"
    by (simp only: ceiling_le_iff)
  then have "1 / \<bar>x\<bar> \<le> 2 ^ nat (bitlen ?m)" by simp
  then have "1 / 2 ^ nat (bitlen ?m) \<le> \<bar>x\<bar>"
    using pos by (simp add: field_simps)
  moreover have "pow2 (ilog2 x) = 1 / 2 ^ nat (bitlen ?m)"
    using False b(1) by (simp add: ilog2_def pow2_def)
  ultimately show ?thesis by simp
qed

lemma ilog2_less:
  assumes "x \<noteq> 0"
  shows "\<bar>x\<bar> < pow2 (ilog2 x + 1)"
proof (cases "1 \<le> \<bar>x\<bar>")
  case True
  then have n: "1 \<le> \<lfloor>\<bar>x\<bar>\<rfloor>" by simp
  from bitlen_bounds [OF n]
  have b: "1 \<le> bitlen \<lfloor>\<bar>x\<bar>\<rfloor>" "\<lfloor>\<bar>x\<bar>\<rfloor> < 2 ^ nat (bitlen \<lfloor>\<bar>x\<bar>\<rfloor>)"
    by simp_all
  from b(2) have "\<lfloor>\<bar>x\<bar>\<rfloor> + 1 \<le> 2 ^ nat (bitlen \<lfloor>\<bar>x\<bar>\<rfloor>)" by simp
  then have "(of_int (\<lfloor>\<bar>x\<bar>\<rfloor> + 1) :: rat) \<le> of_int (2 ^ nat (bitlen \<lfloor>\<bar>x\<bar>\<rfloor>))"
    by (rule of_int_le_iff [THEN iffD2])
  moreover have "\<bar>x\<bar> < of_int (\<lfloor>\<bar>x\<bar>\<rfloor> + 1)" by linarith
  ultimately have "\<bar>x\<bar> < of_int (2 ^ nat (bitlen \<lfloor>\<bar>x\<bar>\<rfloor>))" by (rule less_le_trans [rotated])
  moreover have "pow2 (ilog2 x + 1) = 2 ^ nat (bitlen \<lfloor>\<bar>x\<bar>\<rfloor>)"
    using True b(1) by (simp add: ilog2_def pow2_def)
  ultimately show ?thesis by simp
next
  case False
  then have small: "\<bar>x\<bar> < 1" by simp
  have pos: "0 < \<bar>x\<bar>" using assms by simp
  let ?m = "\<lceil>1 / \<bar>x\<bar>\<rceil> - 1"
  have "1 < 1 / \<bar>x\<bar>" using small pos by (simp add: field_simps)
  then have "1 < \<lceil>1 / \<bar>x\<bar>\<rceil>" by (simp add: less_ceiling_iff)
  then have m: "1 \<le> ?m" by simp
  from bitlen_bounds [OF m]
  have b: "1 \<le> bitlen ?m" "2 ^ nat (bitlen ?m - 1) \<le> ?m" by simp_all
  from b(2) have "(of_int (2 ^ nat (bitlen ?m - 1)) :: rat) \<le> of_int ?m"
    by (rule of_int_le_iff [THEN iffD2])
  moreover have "of_int ?m < 1 / \<bar>x\<bar>" by linarith
  ultimately have "(of_int (2 ^ nat (bitlen ?m - 1)) :: rat) < 1 / \<bar>x\<bar>" by (rule le_less_trans)
  then have "(2 ^ nat (bitlen ?m - 1) :: rat) < 1 / \<bar>x\<bar>" by simp
  then have lt: "\<bar>x\<bar> < 1 / 2 ^ nat (bitlen ?m - 1)"
    using pos by (simp add: field_simps)
  have "ilog2 x + 1 = - (bitlen ?m - 1)"
    using False by (simp add: ilog2_def)
  then have "pow2 (ilog2 x + 1) = 1 / 2 ^ nat (bitlen ?m - 1)"
    using b(1) by (simp add: pow2_def)
  with lt show ?thesis by simp
qed

lemma rne_error: "\<bar>of_int (rne m) - m\<bar> \<le> 1 / 2"
proof -
  have "of_int \<lfloor>m\<rfloor> \<le> m" "m < of_int \<lfloor>m\<rfloor> + 1" by linarith+
  then show ?thesis
    by (auto simp: rne_def Let_def abs_le_iff)
qed

lemma rne_of_int: "rne (of_int k) = k"
  by (simp add: rne_def)

lemma rnd_error: "\<bar>rnd x - x\<bar> \<le> \<bar>x\<bar> / 2 ^ 53"
proof (cases "x = 0")
  case True
  then show ?thesis by (simp add: rnd_def)
next
  case False
  let ?u = "pow2 (ilog2 x - 52)"
  have upos: "0 < ?u" by (simp add: pow2_powi)
  have "rnd x - x = (of_int (rne (x / ?u)) - x / ?u) * ?u"
    using False upos by (simp add: rnd_def Let_def field_simps)
  then have "\<bar>rnd x - x\<bar> = \<bar>of_int (rne (x / ?u)) - x / ?u\<bar> * ?u"
    using upos by (simp add: abs_mult)
  also have "\<dots> \<le> 1 / 2 * ?u"
    using rne_error [of "x / ?u"] upos by (intro mult_right_mono) simp_all
  also have "\<dots> = pow2 (ilog2 x) / 2 ^ 53"
    by (simp add: pow2_powi power_int_diff)
  also have "\<dots> \<le> \<bar>x\<bar> / 2 ^ 53"
    using ilog2_le [OF False] by (simp add: divide_right_mono)
  finally show ?thesis .
qed

lemma rnd_of_int:
  assumes "\<bar>i\<bar> < 2 ^ 53"
  shows "rnd (of_int i) = of_int i"
proof (cases "i = 0")
  case True
  then show ?thesis by (simp add: rnd_def)
next
  case False
  let ?x = "of_int i :: rat"
  let ?e = "ilog2 ?x"
  have "2 powi ?e \<le> \<bar>?x\<bar>"
    using ilog2_le [of ?x] False by (simp add: pow2_powi)
  also have "\<dots> = of_int \<bar>i\<bar>" by simp
  also have "\<dots> < of_int (2 ^ 53)"
    using assms by (simp only: of_int_less_iff)
  also have "\<dots> = 2 ^ 53" by simp
  finally have "(2::rat) powi ?e < 2 powi 53" by simp
  then have e: "?e < 53"
    by (rule power_int_le_imp_less_exp [rotated]) simp_all
  define k where "k = nat (52 - ?e)"
  have k: "52 - ?e = int k"
    using e by (simp add: k_def)
  have u: "pow2 (?e - 52) = 1 / 2 ^ k"
  proof -
    have "?e - 52 = - int k" using k by simp
    then show ?thesis
      by (simp add: pow2_powi power_int_minus inverse_eq_divide)
  qed
  have "?x / pow2 (?e - 52) = of_int (i * 2 ^ k)"
    by (simp add: u)
  then have "rne (?x / pow2 (?e - 52)) = i * 2 ^ k"
    by (simp only: rne_of_int)
  then show ?thesis
    using False by (simp add: rnd_def Let_def u)
qed

text \<open>
  Four values of \<open>rnd\<close>, as binary64 hardware gives them: the two ties above \<open>2 ^ 53\<close>
  go to the even neighbour, and the quotients are those of \<^verbatim>\<open>1.0 / 3.0\<close> and
  \<^verbatim>\<open>16.0 / 9.0\<close>.
\<close>

lemma rnd_examples:
  "rnd 9007199254740993 = 9007199254740992"
  "rnd 9007199254740995 = 9007199254740996"
  "rnd (1 / 3) = 6004799503160661 / 18014398509481984"
  "rnd (16 / 9) = 2001599834386887 / 1125899906842624"
  by code_simp+

section \<open>What the reconfiguration changes\<close>

lemma update_screen_rect_frame [simp]:
  "prev_bounds (update_screen_rect pf w) = prev_bounds w"
  "geometry (update_screen_rect pf w) = geometry w"
  "current_fs (update_screen_rect pf w) = current_fs w"
  "opts (update_screen_rect pf w) = opts w"
  "window (update_screen_rect pf w) = window w"
  "parent (update_screen_rect pf w) = parent w"
  by (simp_all add: update_screen_rect_def Let_def mp_msg_def prev_bounds_def geometry_def
        split: prod.splits option.splits)

lemma update_screen_rect_fields [simp]:
  "prev_x (update_screen_rect pf w) = prev_x w"
  "prev_y (update_screen_rect pf w) = prev_y w"
  "prev_width (update_screen_rect pf w) = prev_width w"
  "prev_height (update_screen_rect pf w) = prev_height w"
  "window_x (update_screen_rect pf w) = window_x w"
  "window_y (update_screen_rect pf w) = window_y w"
  "dw (update_screen_rect pf w) = dw w"
  "dh (update_screen_rect pf w) = dh w"
  by (simp_all add: update_screen_rect_def Let_def mp_msg_def split: prod.splits option.splits)

lemma reinit_fs_bounds_frame [simp]:
  "prev_bounds (reinit_fs_bounds t sw sh w) =
     (if current_fs w \<and> t then geometry w else prev_bounds w)"
  "geometry (reinit_fs_bounds t sw sh w) =
     (if current_fs w then (x0 (screenrc w), y0 (screenrc w), sw, sh)
      else if t then prev_bounds w else geometry w)"
  "current_fs (reinit_fs_bounds t sw sh w) = current_fs w"
  "opts (reinit_fs_bounds t sw sh w) = opts w"
  "window (reinit_fs_bounds t sw sh w) = window w"
  "parent (reinit_fs_bounds t sw sh w) = parent w"
  "screenrc (reinit_fs_bounds t sw sh w) = screenrc w"
  by (simp_all add: reinit_fs_bounds_def Let_def mp_msg_def prev_bounds_def geometry_def)

lemma reinit_larger_than_screen_frame:
  assumes "reinit_larger_than_screen pf w r cr sw sh = Some (w', r')"
  shows "prev_bounds w' = prev_bounds w" "current_fs w' = current_fs w" "opts w' = opts w"
    "window w' = window w" "parent w' = parent w" "screenrc w' = screenrc w"
  using assms
  by (auto simp: reinit_larger_than_screen_def Let_def mp_msg_def prev_bounds_def
        split: option.splits prod.splits if_splits)

lemma reinit_set_window_pos_frame [simp]:
  "prev_bounds (reinit_set_window_pos layer (w, r)) = prev_bounds w"
  "geometry (reinit_set_window_pos layer (w, r)) = geometry w"
  "current_fs (reinit_set_window_pos layer (w, r)) = current_fs w"
  "opts (reinit_set_window_pos layer (w, r)) = opts w"
  "parent (reinit_set_window_pos layer (w, r)) = parent w"
  "screenrc (reinit_set_window_pos layer (w, r)) = screenrc w"
  "window (reinit_set_window_pos layer (w, r)) =
     SetWindowPos (window w) layer (left r) (top r) (right r - left r) (bottom r - top r)"
  by (simp_all add: reinit_set_window_pos_def signal_events_def mp_msg_def prev_bounds_def
        geometry_def)

lemma prev_bounds_update [simp]:
  "prev_bounds (w\<lparr>current_fs := b\<rparr>) = prev_bounds w"
  "prev_bounds (w\<lparr>window := h\<rparr>) = prev_bounds w"
  "geometry (w\<lparr>current_fs := b\<rparr>) = geometry w"
  "geometry (w\<lparr>window := h\<rparr>) = geometry w"
  by (simp_all add: prev_bounds_def geometry_def)

lemma reinit_window_state_prev_bounds:
  assumes "reinit_window_state pf w = Some w'"
  shows "prev_bounds w' =
           (if parent w = 0 \<and> \<not> current_fs w \<and> fullscreen (opts w) then geometry w
            else prev_bounds w)"
proof (cases "parent w = 0")
  case False
  with assms show ?thesis by (simp add: reinit_window_state_def)
next
  case True
  from assms True obtain wX rX layer where
    w': "w' = reinit_set_window_pos layer (wX, rX)" and
    pb: "prev_bounds wX = prev_bounds (reinit_fs_bounds (current_fs w \<noteq> fullscreen (opts w))
           (x1 (screenrc (update_screen_rect pf (w\<lparr>current_fs := fullscreen (opts w)\<rparr>))) -
            x0 (screenrc (update_screen_rect pf (w\<lparr>current_fs := fullscreen (opts w)\<rparr>))))
           (y1 (screenrc (update_screen_rect pf (w\<lparr>current_fs := fullscreen (opts w)\<rparr>))) -
            y0 (screenrc (update_screen_rect pf (w\<lparr>current_fs := fullscreen (opts w)\<rparr>))))
           (update_screen_rect pf (w\<lparr>current_fs := fullscreen (opts w)\<rparr>)))"
    unfolding reinit_window_state_def Let_def
    by (auto simp: reinit_larger_than_screen_frame split: if_split_asm)
  show ?thesis
    using True by (auto simp: w' pb)
qed


lemma reinit_window_state_embedded:
  "parent w \<noteq> 0 \<Longrightarrow> reinit_window_state pf w = Some w"
  by (simp add: reinit_window_state_def)

lemma reinit_window_state_frame:
  assumes "reinit_window_state pf w = Some w'"
  shows "current_fs w' = (if parent w = 0 then fullscreen (opts w) else current_fs w)"
    and "opts w' = opts w" and "parent w' = parent w"
proof -
  have "current_fs w' = (if parent w = 0 then fullscreen (opts w) else current_fs w) \<and>
        opts w' = opts w \<and> parent w' = parent w"
  proof (cases "parent w = 0")
    case False
    with assms show ?thesis by (simp add: reinit_window_state_def)
  next
    case True
    with assms show ?thesis
      unfolding reinit_window_state_def Let_def
      by (auto simp: reinit_larger_than_screen_frame split: if_split_asm)
  qed
  then show "current_fs w' = (if parent w = 0 then fullscreen (opts w) else current_fs w)"
    and "opts w' = opts w" and "parent w' = parent w"
    by simp_all
qed


lemma reinit_window_state_fullscreen_total:
  assumes "fullscreen (opts w)"
  shows "reinit_window_state pf w \<noteq> None"
  using assms unfolding reinit_window_state_def Let_def by simp

lemma GetWindowLong_STYLE_simps [simp]:
  "GetWindowLong_STYLE (SetWindowLong_STYLE (Some n) s) = s"
  "GetWindowLong_STYLE (Some n) = gwl_style n"
  "GetWindowLong_STYLE (SetWindowPos hwnd layer x y cx cy) = GetWindowLong_STYLE hwnd"
  by (simp_all add: GetWindowLong_STYLE_def SetWindowLong_STYLE_def SetWindowPos_def
        split: option.splits)

lemma reinit_window_state_style:
  assumes "reinit_window_state pf w = Some w'" "parent w = 0" "window w = Some n"
  shows "GetWindowLong_STYLE (window w') =
           update_style (w\<lparr>current_fs := fullscreen (opts w)\<rparr>) (gwl_style n)"
    and "window w' \<noteq> None"
proof -
  have "GetWindowLong_STYLE (window w') =
           update_style (w\<lparr>current_fs := fullscreen (opts w)\<rparr>) (gwl_style n) \<and>
        window w' \<noteq> None"
    using assms unfolding reinit_window_state_def Let_def
    by (auto simp: reinit_larger_than_screen_frame SetWindowPos_def SetWindowLong_STYLE_def
          split: if_split_asm)
  then show "GetWindowLong_STYLE (window w') =
           update_style (w\<lparr>current_fs := fullscreen (opts w)\<rparr>) (gwl_style n)"
    and "window w' \<noteq> None"
    by simp_all
qed

lemma update_style_cong:
  "border (opts w) = border (opts v) \<Longrightarrow> current_fs w = current_fs v \<Longrightarrow>
   update_style w s = update_style v s"
  by (simp add: update_style_def)

lemma update_style_absorb:
  "update_style w (update_style v s) = update_style w s"
  by (simp add: update_style_def Let_def WS_OVERLAPPED_def WS_OVERLAPPEDWINDOW_def
        WS_SIZEBOX_def bit_eq_iff bit_simps) auto

lemma screenrc_update_screen_rect_cong:
  "current_fs w = current_fs v \<Longrightarrow> screen_id (opts w) = screen_id (opts v) \<Longrightarrow>
   fsscreen_id (opts w) = fsscreen_id (opts v) \<Longrightarrow>
   screenrc (update_screen_rect pf w) = screenrc (update_screen_rect pf v)"
  by (simp add: update_screen_rect_def Let_def mp_msg_def split: prod.splits option.splits)

lemma reinit_window_state_windowed_fits:
  assumes "parent w = 0" "\<not> fullscreen (opts w)" "window w = Some n"
    and "sc = screenrc (update_screen_rect pf (w\<lparr>current_fs := False\<rparr>))"
    and "f = frame_of_style pf (update_style (w\<lparr>current_fs := False\<rparr>) (gwl_style n))"
    and "(if current_fs w then prev_width w else dw w) +
           (if fit_border (opts w) then right f - left f else 0) \<le> x1 sc - x0 sc"
    and "(if current_fs w then prev_height w else dh w) +
           (if fit_border (opts w) then bottom f - top f else 0) \<le> y1 sc - y0 sc"
  shows "\<exists>w'. reinit_window_state pf w = Some w' \<and>
           geometry w' = (if current_fs w then prev_bounds w else geometry w)"
proof -
  let ?w1 = "update_screen_rect pf (w\<lparr>current_fs := False\<rparr>)"
  let ?w2 = "reinit_fs_bounds (current_fs w) (x1 sc - x0 sc) (y1 sc - y0 sc) ?w1"
  have g2: "geometry ?w2 = (if current_fs w then prev_bounds w else geometry w)"
    by simp
  have d2: "dw ?w2 = (if current_fs w then prev_width w else dw w)"
    "dh ?w2 = (if current_fs w then prev_height w else dh w)"
    by (simp_all add: reinit_fs_bounds_def mp_msg_def)
  show ?thesis
    using assms d2 g2 unfolding reinit_window_state_def Let_def
    by (cases "current_fs w"; cases "fit_border (opts w)")
      (simp_all add: add_window_borders_def AdjustWindowRect_def Let_def)
qed


lemma prev_bounds_opts [simp]:
  "prev_bounds (w\<lparr>opts := p\<rparr>) = prev_bounds w"
  "geometry (w\<lparr>opts := p\<rparr>) = geometry w"
  by (simp_all add: prev_bounds_def geometry_def)

lemma handled_Some [simp]:
  "handled r = Some (st, v, out) \<longleftrightarrow> r = Some v \<and> st = VO_TRUE \<and> out = None"
  by (cases r) (auto simp: handled_def)

lemma gui_thread_control_prev_bounds:
  assumes "gui_thread_control pf w req = Some (st, v, out)" "prev_bounds v \<noteq> prev_bounds w"
  shows "(\<not> current_fs w \<and> current_fs v) \<or>
         (\<exists>s0 s1. req = VOCTRL_SET_UNFS_WINDOW_SIZE s0 s1 \<and> current_fs w)"
proof (cases req)
  case (VOCTRL_SET_UNFS_WINDOW_SIZE s0 s1)
  show ?thesis
  proof (cases "current_fs w")
    case True
    then show ?thesis using VOCTRL_SET_UNFS_WINDOW_SIZE by simp
  next
    case False
    let ?w1 = "w\<lparr>window_x := window_x w + (dw w sdiv 2 - s0 sdiv 2),
                  window_y := window_y w + (dh w sdiv 2 - s1 sdiv 2), dw := s0, dh := s1\<rparr>"
    have init: "window_bounds_initialized w"
      using assms VOCTRL_SET_UNFS_WINDOW_SIZE by (auto split: if_split_asm)
    then have r: "reinit_window_state pf ?w1 = Some v"
      using assms(1) VOCTRL_SET_UNFS_WINDOW_SIZE False by (simp add: Let_def)
    have "prev_bounds ?w1 = prev_bounds w"
      by (simp add: prev_bounds_def)
    then show ?thesis
      using reinit_window_state_prev_bounds [OF r] reinit_window_state_frame(1) [OF r] assms(2) False
      by (auto split: if_split_asm)
  qed
qed (use assms reinit_window_state_prev_bounds [of pf w v] reinit_window_state_frame(1) [of pf w v]
      in \<open>auto simp: prev_bounds_def split: if_split_asm\<close>)


text \<open>
  While the window is fullscreen, the request that sets the unfullscreened window size
  stores the new size and the position recentred on the old one in the saved bounds.
\<close>

lemma gui_thread_control_set_unfs_fullscreen:
  assumes "gui_thread_control pf w (VOCTRL_SET_UNFS_WINDOW_SIZE n_w n_h) = Some (st, v, out)"
    and "window_bounds_initialized w" and "current_fs w"
  shows "prev_bounds v =
           (prev_x w + (prev_width w sdiv 2 - n_w sdiv 2),
            prev_y w + (prev_height w sdiv 2 - n_h sdiv 2), n_w, n_h)"
proof -
  let ?w1 = "w\<lparr>prev_x := prev_x w + (prev_width w sdiv 2 - n_w sdiv 2),
                prev_y := prev_y w + (prev_height w sdiv 2 - n_h sdiv 2),
                prev_width := n_w, prev_height := n_h\<rparr>"
  have r: "reinit_window_state pf ?w1 = Some v"
    using assms by (simp add: Let_def)
  have "prev_bounds v = prev_bounds ?w1"
    using reinit_window_state_prev_bounds [OF r] assms(3) by simp
  then show ?thesis
    by (simp add: prev_bounds_def)
qed
section \<open>The letterbox step\<close>

text \<open>
  For sizes below \<open>2 ^ 25\<close> the double arithmetic of the letterbox step is accurate to
  less than a pixel: the result fits the available size, one side is the available one
  and the other is the exact side of the same aspect ratio, rounded down, or one less.
\<close>

lemma rnd_bounds:
  assumes "0 \<le> x"
  shows "x - x / 2 ^ 53 \<le> rnd x" and "rnd x \<le> x + x / 2 ^ 53"
proof -
  have "\<bar>rnd x - x\<bar> \<le> x / 2 ^ 53"
    using rnd_error [of x] assms by (simp only: abs_of_nonneg)
  then have "rnd x - x \<le> x / 2 ^ 53 \<and> - (rnd x - x) \<le> x / 2 ^ 53"
    by (simp only: abs_le_iff)
  then show "x - x / 2 ^ 53 \<le> rnd x" and "rnd x \<le> x + x / 2 ^ 53"
    by linarith+
qed

lemma rnd_pos:
  assumes "0 < x"
  shows "0 < rnd x"
proof -
  have "0 < x - x / 2 ^ 53" using assms by simp
  also have "\<dots> \<le> rnd x" using rnd_bounds(1) [of x] assms by simp
  finally show ?thesis .
qed

text \<open>Quotient of integers, rounded: the bounds without division.\<close>

lemma rnd_quotient_bounds:
  fixes p q :: rat
  assumes "0 < p" "0 < q"
  shows "q - q / 2 ^ 53 \<le> rnd (q / p) * p" and "rnd (q / p) * p \<le> q + q / 2 ^ 53"
    and "0 < rnd (q / p)"
proof -
  have x: "0 < q / p" using assms by simp
  have "(q / p - q / p / 2 ^ 53) * p \<le> rnd (q / p) * p"
    using rnd_bounds(1) [of "q / p"] x assms(1) by (intro mult_right_mono) simp_all
  then show "q - q / 2 ^ 53 \<le> rnd (q / p) * p"
    using assms(1) by (simp add: field_simps)
  have "rnd (q / p) * p \<le> (q / p + q / p / 2 ^ 53) * p"
    using rnd_bounds(2) [of "q / p"] x assms(1) by (intro mult_right_mono) simp_all
  then show "rnd (q / p) * p \<le> q + q / 2 ^ 53"
    using assms(1) by (simp add: field_simps)
  show "0 < rnd (q / p)" using x by (rule rnd_pos)
qed

text \<open>
  From bounds on \<open>t = c * q\<close> against \<open>m = n * p\<close> to the integer part of \<open>c\<close>.
\<close>

lemma floor_between:
  fixes n p q :: int and c :: rat
  assumes q: "0 < q" and c: "0 \<le> c"
    and m: "of_int (n * p) < (2 ^ 50 :: rat)" "0 \<le> n * p"
    and up: "c * of_int q * (1 - 3 / 2 ^ 53) \<le> of_int (n * p) * (1 + 3 / 2 ^ 53)"
    and lo: "of_int (n * p) * (1 - 3 / 2 ^ 53) \<le> c * of_int q * (1 + 3 / 2 ^ 53)"
  shows "\<lfloor>c\<rfloor> * q \<le> n * p" and "n * p \<le> (\<lfloor>c\<rfloor> + 1) * q" and "0 \<le> \<lfloor>c\<rfloor>"
proof -
  let ?t = "c * of_int q" and ?m = "of_int (n * p) :: rat"
  have qr: "(1::rat) \<le> of_int q" using q by simp
  have m0: "0 \<le> ?m" using m(2) by (simp only: of_int_0_le_iff)
  have "of_int \<lfloor>c\<rfloor> * of_int q \<le> ?t"
    using q by (intro mult_right_mono) simp_all
  then have "of_int (\<lfloor>c\<rfloor> * q) \<le> ?t" by simp
  moreover have "?t < ?m + 1"
    using up m(1) m0 by (simp add: field_simps)
  ultimately have "(of_int (\<lfloor>c\<rfloor> * q) :: rat) < of_int (n * p + 1)" by simp
  then have "\<lfloor>c\<rfloor> * q < n * p + 1" by (simp only: of_int_less_iff)
  then show "\<lfloor>c\<rfloor> * q \<le> n * p" by simp
  have "c < of_int (\<lfloor>c\<rfloor> + 1)" by linarith
  then have "?t < of_int (\<lfloor>c\<rfloor> + 1) * of_int q"
    using q by (intro mult_strict_right_mono) simp_all
  then have "?t < of_int ((\<lfloor>c\<rfloor> + 1) * q)" by simp
  moreover have "?m - 1 < ?t"
    using lo m(1) m0 by (simp add: field_simps)
  ultimately have "(of_int (n * p - 1) :: rat) < of_int ((\<lfloor>c\<rfloor> + 1) * q)" by simp
  then have "n * p - 1 < (\<lfloor>c\<rfloor> + 1) * q" by (simp only: of_int_less_iff)
  then show "n * p \<le> (\<lfloor>c\<rfloor> + 1) * q" by simp
  show "0 \<le> \<lfloor>c\<rfloor>" using c by simp
qed


lemma size_product:
  fixes a b :: int
  assumes "0 < a" "a < 2 ^ 25" "0 < b" "b < 2 ^ 25"
  shows "of_int (a * b) < (2 ^ 50 :: rat)" and "0 \<le> a * b"
proof -
  have "a * b < 2 ^ 25 * 2 ^ 25"
    using assms by (intro mult_strict_mono) simp_all
  then have "a * b < 2 ^ 50" by simp
  then have "(of_int (a * b) :: rat) < of_int (2 ^ 50)" by (simp only: of_int_less_iff)
  then show "of_int (a * b) < (2 ^ 50 :: rat)" by simp
  show "0 \<le> a * b" using assms by simp
qed

lemma double_of_int_exact:
  assumes "0 < i" "i < 2 ^ 25"
  shows "double_of_int i = Fin (of_int i)"
proof -
  have "\<bar>i\<bar> < 2 ^ 53" using assms by simp
  then show ?thesis by (simp add: double_of_int_def rnd_of_int)
qed

text \<open>
  Cross products order the rounded quotients: \<open>m\<close> and \<open>m'\<close> are the cross products of
  two fractions, \<open>x\<close> and \<open>y\<close> the rounded fractions scaled to the common denominator.
\<close>

lemma cross_products:
  fixes m m' :: int and x y :: rat
  assumes "of_int m < (2 ^ 50 :: rat)" "0 \<le> m" "of_int m' < (2 ^ 50 :: rat)" "0 \<le> m'"
    and "of_int m - of_int m / 2 ^ 53 \<le> x" "y \<le> of_int m' + of_int m' / 2 ^ 53" "x \<le> y"
  shows "m \<le> m'"
proof -
  have "(of_int m :: rat) < of_int m' + 1"
    using assms by (simp add: field_simps)
  then have "(of_int m :: rat) < of_int (m' + 1)" by simp
  then have "m < m' + 1" by (simp only: of_int_less_iff)
  then show ?thesis by simp
qed


lemma to_long_floor:
  assumes "0 \<le> c" "\<lfloor>c\<rfloor> \<le> n" "n < 2 ^ 25"
  shows "to_long (Fin c) = Some \<lfloor>c\<rfloor>"
proof -
  from assms(2,3) have "\<lfloor>c\<rfloor> < 2 ^ 25" by (rule le_less_trans)
  moreover have "(2::int) ^ 25 < 2 ^ 31" by simp
  ultimately have small: "\<lfloor>c\<rfloor> < 2 ^ 31" by (rule less_trans)
  have "0 \<le> \<lfloor>c\<rfloor>"
    using assms(1) by simp
  then have "- (2 ^ 31) \<le> \<lfloor>c\<rfloor>"
    using order_trans [of "- (2 ^ 31)" 0 "\<lfloor>c\<rfloor>"] by simp
  then show ?thesis using assms(1) small by (simp add: Let_def)
qed

lemma letterbox_fits:
  assumes cw: "0 < c_w" "c_w < 2 ^ 25" and ch: "0 < c_h" "c_h < 2 ^ 25"
    and nw: "0 < n_w" "n_w < 2 ^ 25" and nh: "0 < n_h" "n_h < 2 ^ 25"
  shows "\<exists>w h. letterbox c_w c_h n_w n_h = Some (w, h) \<and>
           0 \<le> w \<and> w \<le> n_w \<and> 0 \<le> h \<and> h \<le> n_h \<and>
           (w = n_w \<and> h * c_w \<le> n_w * c_h \<and> n_w * c_h \<le> (h + 1) * c_w \<or>
            h = n_h \<and> w * c_h \<le> n_h * c_w \<and> n_h * c_w \<le> (w + 1) * c_h)"
proof -
  define CW CH NW NH :: rat
    where "CW = of_int c_w" and "CH = of_int c_h" and "NW = of_int n_w" and "NH = of_int n_h"
  have pos: "0 < CW" "0 < CH" "0 < NW" "0 < NH"
    using cw ch nw nh by (simp_all add: CW_def CH_def NW_def NH_def)
  define a where "a = rnd (CW / CH)"
  define s where "s = rnd (NW / NH)"
  have a: "CW - CW / 2 ^ 53 \<le> a * CH" "a * CH \<le> CW + CW / 2 ^ 53" "0 < a"
    unfolding a_def using rnd_quotient_bounds [of CH CW] pos by simp_all
  have s: "NW - NW / 2 ^ 53 \<le> s * NH" "s * NH \<le> NW + NW / 2 ^ 53" "0 < s"
    unfolding s_def using rnd_quotient_bounds [of NH NW] pos by simp_all
  have d: "double_of_int c_w = Fin CW" "double_of_int c_h = Fin CH"
    "double_of_int n_w = Fin NW" "double_of_int n_h = Fin NH"
    unfolding CW_def CH_def NW_def NH_def
    by (rule double_of_int_exact, fact, fact)+
  have asp: "double_div (Fin CW) (Fin CH) = Fin a"
    using pos(2) by (simp add: a_def)
  have s_asp: "double_div (Fin NW) (Fin NH) = Fin s"
    using pos(4) by (simp add: s_def)
  have unfold: "letterbox c_w c_h n_w n_h =
      (if double_gt (Fin a) (Fin s)
       then map_option (\<lambda>h. (n_w, h)) (to_long (double_div (Fin NW) (Fin a)))
       else map_option (\<lambda>w. (w, n_h)) (to_long (double_mul (Fin NH) (Fin a))))"
    by (simp only: letterbox_def Let_def d asp s_asp)
  have sNH: "(NW - NW / 2 ^ 53) * CH \<le> s * NH * CH"
    using s(1) pos by (intro mult_right_mono) simp_all
  have sNH': "s * NH * CH \<le> (NW + NW / 2 ^ 53) * CH"
    using s(2) pos by (intro mult_right_mono) simp_all
  have aCH: "(CW - CW / 2 ^ 53) * NH \<le> a * CH * NH"
    using a(1) pos by (intro mult_right_mono) simp_all
  have aCH': "a * CH * NH \<le> (CW + CW / 2 ^ 53) * NH"
    using a(2) pos by (intro mult_right_mono) simp_all
  show ?thesis
  proof (cases "s < a")
    case True
    define c where "c = rnd (NW / a)"
    have c: "NW - NW / 2 ^ 53 \<le> c * a" "c * a \<le> NW + NW / 2 ^ 53" "0 < c"
      unfolding c_def using rnd_quotient_bounds [of a NW] pos a(3) by simp_all
    have lb: "letterbox c_w c_h n_w n_h = map_option (\<lambda>h. (n_w, h)) (to_long (Fin c))"
      using True a(3) by (simp add: unfold c_def)
    have t0: "0 \<le> c * CW" and m0: "0 \<le> NW * CH"
      using pos c(3) by simp_all
    have up: "c * of_int c_w * (1 - 3 / 2 ^ 53) \<le> of_int (n_w * c_h) * (1 + 3 / 2 ^ 53)"
    proof -
      have "c * CW * (1 - 3 / 2 ^ 53) \<le> c * CW * (1 - 1 / 2 ^ 53)"
        using t0 by (intro mult_left_mono) simp_all
      also have "\<dots> = c * (CW - CW / 2 ^ 53)"
        by (simp add: algebra_simps)
      also have "\<dots> \<le> c * (a * CH)"
        using a(1) c(3) by (intro mult_left_mono) simp_all
      also have "\<dots> = (c * a) * CH" by simp
      also have "\<dots> \<le> (NW + NW / 2 ^ 53) * CH"
        using c(2) pos by (intro mult_right_mono) simp_all
      also have "\<dots> = NW * CH * (1 + 1 / 2 ^ 53)"
        by (simp add: algebra_simps)
      also have "\<dots> \<le> NW * CH * (1 + 3 / 2 ^ 53)"
        using m0 by (intro mult_left_mono) simp_all
      finally show ?thesis by (simp add: CW_def NW_def CH_def)
    qed
    have lo: "of_int (n_w * c_h) * (1 - 3 / 2 ^ 53) \<le> c * of_int c_w * (1 + 3 / 2 ^ 53)"
    proof -
      have "NW * CH * (1 - 3 / 2 ^ 53) \<le> NW * CH * (1 - 1 / 2 ^ 53)"
        using m0 by (intro mult_left_mono) simp_all
      also have "\<dots> = (NW - NW / 2 ^ 53) * CH"
        by (simp add: algebra_simps)
      also have "\<dots> \<le> (c * a) * CH"
        using c(1) pos by (intro mult_right_mono) simp_all
      also have "\<dots> = c * (a * CH)" by simp
      also have "\<dots> \<le> c * (CW + CW / 2 ^ 53)"
        using a(2) c(3) by (intro mult_left_mono) simp_all
      also have "\<dots> = c * CW * (1 + 1 / 2 ^ 53)"
        by (simp add: algebra_simps)
      also have "\<dots> \<le> c * CW * (1 + 3 / 2 ^ 53)"
        using t0 by (intro mult_left_mono) simp_all
      finally show ?thesis by (simp add: CW_def NW_def CH_def)
    qed
    have c0: "0 \<le> c" using c(3) by simp
    note fl = floor_between [OF cw(1) c0 size_product [OF nw ch] up lo]
    have "n_w * c_h \<le> c_w * n_h"
    proof (rule cross_products [OF size_product [OF nw ch] size_product [OF cw nh]])
      show "of_int (n_w * c_h) - of_int (n_w * c_h) / 2 ^ 53 \<le> s * NH * CH"
        using sNH by (simp add: NW_def CH_def algebra_simps)
      show "a * CH * NH \<le> of_int (c_w * n_h) + of_int (c_w * n_h) / 2 ^ 53"
        using aCH' by (simp add: CW_def NH_def algebra_simps)
      show "s * NH * CH \<le> a * CH * NH"
      proof -
        have "s * (NH * CH) \<le> a * (NH * CH)"
          using True pos by (intro mult_right_mono) simp_all
        then show ?thesis by (simp add: ac_simps)
      qed
    qed
    with fl(1) have "\<lfloor>c\<rfloor> * c_w \<le> n_h * c_w"
      by (simp add: mult.commute)
    then have h: "\<lfloor>c\<rfloor> \<le> n_h"
      using cw(1) by simp
    have "to_long (Fin c) = Some \<lfloor>c\<rfloor>"
      using c0 h nh(2) by (rule to_long_floor)
    then have "letterbox c_w c_h n_w n_h = Some (n_w, \<lfloor>c\<rfloor>)"
      by (simp add: lb)
    then show ?thesis
      using fl h nw(1) by auto
  next
    case False
    then have le: "a \<le> s" by simp
    define c where "c = rnd (NH * a)"
    have x0: "0 \<le> NH * a" using pos a(3) by simp
    have c: "NH * a - NH * a / 2 ^ 53 \<le> c" "c \<le> NH * a + NH * a / 2 ^ 53"
      unfolding c_def using rnd_bounds [OF x0] by simp_all
    have c0: "0 \<le> c"
    proof -
      have "0 \<le> NH * a - NH * a / 2 ^ 53" using x0 by simp
      with c(1) show ?thesis by simp
    qed
    have lb: "letterbox c_w c_h n_w n_h = map_option (\<lambda>w. (w, n_h)) (to_long (Fin c))"
      using False by (simp add: unfold c_def)
    have t0: "0 \<le> c * CH" and m0: "0 \<le> NH * CW"
      using pos c0 by simp_all
    have up: "c * of_int c_h * (1 - 3 / 2 ^ 53) \<le> of_int (n_h * c_w) * (1 + 3 / 2 ^ 53)"
    proof -
      have "c * CH * (1 - 3 / 2 ^ 53) \<le> c * CH * 1"
        using t0 by (intro mult_left_mono) simp_all
      also have "\<dots> \<le> (NH * a + NH * a / 2 ^ 53) * CH"
        using c(2) pos by (simp add: mult_right_mono)
      also have "\<dots> = NH * (a * CH) * (1 + 1 / 2 ^ 53)"
        by (simp add: algebra_simps)
      also have "\<dots> \<le> NH * (CW + CW / 2 ^ 53) * (1 + 1 / 2 ^ 53)"
        using a(2) pos by (intro mult_right_mono mult_left_mono) simp_all
      also have "\<dots> = NH * CW * ((1 + 1 / 2 ^ 53) * (1 + 1 / 2 ^ 53))"
        by (simp add: algebra_simps)
      also have "\<dots> \<le> NH * CW * (1 + 3 / 2 ^ 53)"
        using m0 by (intro mult_left_mono) simp_all
      finally show ?thesis by (simp add: CW_def NH_def CH_def)
    qed
    have lo: "of_int (n_h * c_w) * (1 - 3 / 2 ^ 53) \<le> c * of_int c_h * (1 + 3 / 2 ^ 53)"
    proof -
      have "NH * CW * (1 - 3 / 2 ^ 53) \<le> NH * CW * ((1 - 1 / 2 ^ 53) * (1 - 1 / 2 ^ 53))"
        using m0 by (intro mult_left_mono) simp_all
      also have "\<dots> = NH * (CW - CW / 2 ^ 53) * (1 - 1 / 2 ^ 53)"
        by (simp add: algebra_simps)
      also have "\<dots> \<le> NH * (a * CH) * (1 - 1 / 2 ^ 53)"
        using a(1) pos by (intro mult_right_mono mult_left_mono) simp_all
      also have "\<dots> = (NH * a - NH * a / 2 ^ 53) * CH"
        by (simp add: algebra_simps)
      also have "\<dots> \<le> c * CH"
        using c(1) pos by (simp add: mult_right_mono)
      also have "\<dots> = c * CH * 1" by simp
      also have "\<dots> \<le> c * CH * (1 + 3 / 2 ^ 53)"
        using t0 by (intro mult_left_mono) simp_all
      finally show ?thesis by (simp add: CW_def NH_def CH_def)
    qed
    note fl = floor_between [OF ch(1) c0 size_product [OF nh cw] up lo]
    have "n_h * c_w \<le> n_w * c_h"
    proof (rule cross_products [OF size_product [OF nh cw] size_product [OF nw ch]])
      show "of_int (n_h * c_w) - of_int (n_h * c_w) / 2 ^ 53 \<le> a * CH * NH"
        using aCH by (simp add: CW_def NH_def algebra_simps)
      show "s * NH * CH \<le> of_int (n_w * c_h) + of_int (n_w * c_h) / 2 ^ 53"
        using sNH' by (simp add: NW_def CH_def algebra_simps)
      show "a * CH * NH \<le> s * NH * CH"
      proof -
        have "a * (NH * CH) \<le> s * (NH * CH)"
          using le pos by (intro mult_right_mono) simp_all
        then show ?thesis by (simp add: ac_simps)
      qed
    qed
    with fl(1) have "\<lfloor>c\<rfloor> * c_h \<le> n_w * c_h"
      by simp
    then have w: "\<lfloor>c\<rfloor> \<le> n_w"
      using ch(1) by simp
    have "to_long (Fin c) = Some \<lfloor>c\<rfloor>"
      using c0 w nw(2) by (rule to_long_floor)
    then have "letterbox c_w c_h n_w n_h = Some (\<lfloor>c\<rfloor>, n_h)"
      by (simp add: lb)
    then show ?thesis
      using fl w nh(1) by auto
  qed
qed


lemma reinit_larger_than_screen_Some:
  assumes "letterbox (right cr - left cr) (bottom cr - top cr) n_w n_h = Some (nw', nh')"
    and "n_w = (if fit_border (opts w)
                then sw - (right r - right cr) - (left cr - left r) else sw)"
    and "n_h = (if fit_border (opts w)
                then sh - (bottom r - bottom cr) - (top cr - top r) else sh)"
    and "f = frame_of_style pf (GetWindowLong_STYLE (window w))"
  shows "\<exists>w' r'. reinit_larger_than_screen pf w r cr sw sh = Some (w', r') \<and>
           dw w' = nw' \<and> dh w' = nh' \<and> window w' = window w \<and>
           rect_width r' = nw' + (right f - left f) \<and>
           rect_height r' = nh' + (bottom f - top f) \<and>
           rect_centre r' = rect_centre r"
  using assms
  by (simp add: reinit_larger_than_screen_def Let_def mp_msg_def add_window_borders_def
        AdjustWindowRect_def rect_width_def rect_height_def rect_centre_def)

section \<open>Window borders\<close>

text \<open>
  C5. For every rectangle and a window whose style is the same at both calls, removing
  the window borders from the rectangle with borders added gives the rectangle back.
\<close>

theorem subtract_add_window_borders:
  "subtract_window_borders pf hwnd (add_window_borders pf hwnd r) = r"
  by (simp add: subtract_window_borders_def add_window_borders_def AdjustWindowRect_def Let_def)

section \<open>UTF-16 decoding\<close>

text \<open>
  C7. The high surrogate 0xD83D is stored and yields no character; the low surrogate
  0xDE00 that follows yields the code point 0x1F600 and empties the decoder. A low
  surrogate that arrives while no high surrogate is pending logs an error, yields no
  character (the result is 0) and leaves the decoder empty.
\<close>

theorem decode_utf16_surrogates:
  "decode_utf16 w 0xD83D = (w\<lparr>high_surrogate := 0xD83D\<rparr>, 0) \<and>
   decode_utf16 (fst (decode_utf16 w 0xD83D)) 0xDE00 = (w\<lparr>high_surrogate := 0\<rparr>, 0x1F600) \<and>
   (IS_LOW_SURROGATE c \<and> high_surrogate w = 0 \<longrightarrow>
      decode_utf16 w c = (w\<lparr>msgs := msgs w @ [(MSGL_ERR, ''Invalid UTF-16 input'', [])]\<rparr>, 0) \<and>
      high_surrogate (fst (decode_utf16 w c)) = 0)"
proof -
  have hi: "decode_utf16 w 0xD83D = (w\<lparr>high_surrogate := 0xD83D\<rparr>, 0)"
    by (simp add: decode_utf16_def IS_HIGH_SURROGATE_def)
  have pair: "decode_surrogate_pair 0xD83D 0xDE00 = 0x1F600"
    by (simp add: decode_surrogate_pair_def)
  have lo: "decode_utf16 (w\<lparr>high_surrogate := 0xD83D\<rparr>) 0xDE00 = (w\<lparr>high_surrogate := 0\<rparr>, 0x1F600)"
    by (simp add: decode_utf16_def IS_HIGH_SURROGATE_def IS_LOW_SURROGATE_def pair)
  have lone: "decode_utf16 w c = (w\<lparr>msgs := msgs w @ [(MSGL_ERR, ''Invalid UTF-16 input'', [])]\<rparr>, 0)"
    if "IS_LOW_SURROGATE c" "high_surrogate w = 0"
  proof -
    have "\<not> IS_HIGH_SURROGATE c"
      using that(1) by (simp add: IS_HIGH_SURROGATE_def IS_LOW_SURROGATE_def word_le_nat_alt)
    then show ?thesis
      using that by (simp add: decode_utf16_def mp_msg_def)
  qed
  show ?thesis
    using hi lo lone by auto
qed

theorem decode_utf16_surrogates_witness:
  "IS_LOW_SURROGATE 0xDE00 \<and> high_surrogate (new_window 0 0 640 480) = 0 \<and>
   decode_utf16 (new_window 0 0 640 480) 0xDE00 =
     ((new_window 0 0 640 480)\<lparr>msgs := [(MSGL_ERR, ''Invalid UTF-16 input'', [])]\<rparr>, 0) \<and>
   decode_utf16 (fst (decode_utf16 (new_window 0 0 640 480) 0xD83D)) 0xDE00 =
     (new_window 0 0 640 480, 0x1F600)"
proof -
  note inst = decode_utf16_surrogates [of "new_window 0 0 640 480" "0xDE00"]
  have low: "IS_LOW_SURROGATE 0xDE00"
    by (simp add: IS_LOW_SURROGATE_def)
  have empty: "high_surrogate (new_window 0 0 640 480) = 0"
    by (simp add: new_window_def)
  have quiet: "msgs (new_window 0 0 640 480) @ [(MSGL_ERR, ''Invalid UTF-16 input'', [])] =
      [(MSGL_ERR, ''Invalid UTF-16 input'', [])]"
    by (simp add: new_window_def)
  have same: "(new_window 0 0 640 480)\<lparr>high_surrogate := 0\<rparr> = new_window 0 0 640 480"
    by (simp add: new_window_def)
  from inst have pair:
    "decode_utf16 (fst (decode_utf16 (new_window 0 0 640 480) 0xD83D)) 0xDE00 =
       ((new_window 0 0 640 480)\<lparr>high_surrogate := 0\<rparr>, 0x1F600)"
    by blast
  from inst low empty have lone:
    "decode_utf16 (new_window 0 0 640 480) 0xDE00 =
       ((new_window 0 0 640 480)
          \<lparr>msgs := msgs (new_window 0 0 640 480) @ [(MSGL_ERR, ''Invalid UTF-16 input'', [])]\<rparr>, 0)"
    by blast
  show ?thesis
    using low empty pair [unfolded same] lone [unfolded quiet] by blast
qed

section \<open>Key release\<close>

text \<open>
  C8. A key-up releases all keys that are down: the release-all code is put into the
  input context, and nothing else changes. The exception is the release of a bare
  modifier (Shift, Ctrl or Alt), for which nothing is released.
\<close>

theorem handle_key_up_releases_all:
  "(vkey \<notin> {VK_SHIFT, VK_CONTROL, VK_MENU} \<longrightarrow>
      handle_key_up w vkey scancode = w\<lparr>input_ctx := input_ctx w @ [MP_INPUT_RELEASE_ALL]\<rparr>) \<and>
   (vkey \<in> {VK_SHIFT, VK_CONTROL, VK_MENU} \<longrightarrow> handle_key_up w vkey scancode = w)"
  by (auto simp: handle_key_up_def mp_input_put_key_def)

theorem handle_key_up_releases_all_witness:
  "(0x41 :: 32 word) \<notin> {VK_SHIFT, VK_CONTROL, VK_MENU} \<and>
   input_ctx (handle_key_up (new_window 0 0 640 480) 0x41 0x1E) = [MP_INPUT_RELEASE_ALL] \<and>
   VK_SHIFT \<in> {VK_SHIFT, VK_CONTROL, VK_MENU} \<and>
   input_ctx (handle_key_up (new_window 0 0 640 480) VK_SHIFT 0x2A) = []"
proof -
  have key: "(0x41 :: 32 word) \<notin> {VK_SHIFT, VK_CONTROL, VK_MENU}"
    by (simp add: VK_SHIFT_def VK_CONTROL_def VK_MENU_def)
  have "input_ctx (new_window 0 0 640 480) = []"
    by (simp add: new_window_def)
  then show ?thesis
    using key handle_key_up_releases_all [of "0x41" "new_window 0 0 640 480" "0x1E"]
      handle_key_up_releases_all [of VK_SHIFT "new_window 0 0 640 480" "0x2A"]
    by simp
qed

section \<open>Control requests\<close>

text \<open>
  C9. What a failed request for the unfullscreened window size leaves of the state.
  The embedded window has pending events; the request to get the size fails, and
  so does the request to set it, but the state after either differs from the state
  before: \<^verbatim>\<open>event_flags\<close> is empty, the events having gone to the caller, and since the
  resize event was among them the size in \<^verbatim>\<open>struct vo\<close> is now that of the window.
\<close>

theorem unfs_window_size_request_drains_event_flags:
  "\<not> window_bounds_initialized embedded_window \<and>
   event_flags embedded_window = {VO_EVENT_EXPOSE, VO_EVENT_RESIZE, VO_EVENT_WIN_STATE} \<and>
   do_control desktop embedded_window video_output {} VOCTRL_GET_UNFS_WINDOW_SIZE =
     Some (VO_FALSE, embedded_window\<lparr>event_flags := {}\<rparr>,
           \<lparr>dwidth = 640, dheight = 480\<rparr>, {VO_EVENT_EXPOSE, VO_EVENT_RESIZE, VO_EVENT_WIN_STATE}, None) \<and>
   do_control desktop embedded_window video_output {} (VOCTRL_SET_UNFS_WINDOW_SIZE 800 600) =
     Some (VO_FALSE, embedded_window\<lparr>event_flags := {}\<rparr>,
           \<lparr>dwidth = 640, dheight = 480\<rparr>, {VO_EVENT_EXPOSE, VO_EVENT_RESIZE, VO_EVENT_WIN_STATE}, None) \<and>
   embedded_window\<lparr>event_flags := {}\<rparr> \<noteq> embedded_window \<and>
   \<lparr>dwidth = 640, dheight = 480\<rparr> \<noteq> video_output"
  by (simp add: do_control_def embedded_window_def video_output_def)

text \<open>
  C9. While the window bounds are not initialised, the requests that get and that set
  the unfullscreened window size return the failed status and store nothing through
  their argument. \<^verbatim>\<open>gui_thread_control\<close> leaves the whole state as it was; of the request
  as \<^verbatim>\<open>do_control\<close> runs it, every field of the state but \<^verbatim>\<open>event_flags\<close> is as it was,
  \<^verbatim>\<open>event_flags\<close> is empty, its events are added to the caller's, and the size in
  \<^verbatim>\<open>struct vo\<close> is set to \<^verbatim>\<open>dw\<close> and \<^verbatim>\<open>dh\<close> when the caller's events then hold the resize
  event, and is as it was otherwise.
\<close>

theorem unfs_window_size_uninitialized:
  assumes "\<not> window_bounds_initialized w"
    and "request = VOCTRL_GET_UNFS_WINDOW_SIZE \<or> request = VOCTRL_SET_UNFS_WINDOW_SIZE n_w n_h"
  shows "gui_thread_control pf w request = Some (VO_FALSE, w, None) \<and>
         do_control pf w v events request =
           Some (VO_FALSE, w\<lparr>event_flags := {}\<rparr>,
                 (if VO_EVENT_RESIZE \<in> events \<union> event_flags w
                  then v\<lparr>dwidth := dw w, dheight := dh w\<rparr> else v),
                 events \<union> event_flags w, None)"
  using assms by (auto simp add: do_control_def)

theorem unfs_window_size_uninitialized_witness:
  "\<not> window_bounds_initialized ((new_window 0 0 640 480)\<lparr>window_bounds_initialized := False\<rparr>) \<and>
   gui_thread_control desktop ((new_window 0 0 640 480)\<lparr>window_bounds_initialized := False\<rparr>)
     (VOCTRL_SET_UNFS_WINDOW_SIZE 800 600) =
     Some (VO_FALSE, (new_window 0 0 640 480)\<lparr>window_bounds_initialized := False\<rparr>, None) \<and>
   do_control desktop ((new_window 0 0 640 480)\<lparr>window_bounds_initialized := False\<rparr>)
     video_output {VO_EVENT_WIN_STATE} (VOCTRL_SET_UNFS_WINDOW_SIZE 800 600) =
     Some (VO_FALSE, (new_window 0 0 640 480)\<lparr>window_bounds_initialized := False\<rparr>,
           video_output, {VO_EVENT_WIN_STATE}, None)"
proof -
  let ?w = "(new_window 0 0 640 480)\<lparr>window_bounds_initialized := False\<rparr>"
  have un: "\<not> window_bounds_initialized ?w"
    by simp
  have flags: "event_flags ?w = {}" "?w\<lparr>event_flags := {}\<rparr> = ?w"
    by (simp_all add: new_window_def)
  note inst = unfs_window_size_uninitialized
    [where w = "?w" and request = "VOCTRL_SET_UNFS_WINDOW_SIZE 800 600" and n_w = 800
       and n_h = 600 and pf = desktop and v = video_output and events = "{VO_EVENT_WIN_STATE}",
     OF un disjI2 [OF refl]]
  have ctl: "gui_thread_control desktop ?w (VOCTRL_SET_UNFS_WINDOW_SIZE 800 600) =
      Some (VO_FALSE, ?w, None)"
    using inst by blast
  have req: "do_control desktop ?w video_output {VO_EVENT_WIN_STATE}
      (VOCTRL_SET_UNFS_WINDOW_SIZE 800 600) =
      Some (VO_FALSE, ?w, video_output, {VO_EVENT_WIN_STATE}, None)"
    using inst by (simp add: flags)
  show ?thesis
    by (intro conjI un ctl req)
qed

text \<open>
  C10. A fullscreen request whose wanted mode is the current mode returns the handled
  status and does not reconfigure the window: the state, and with it every geometry
  field, is unchanged.
\<close>

theorem fullscreen_request_idempotent:
  "fullscreen (opts w) = current_fs w \<Longrightarrow>
   gui_thread_control pf w VOCTRL_FULLSCREEN = Some (VO_TRUE, w, None)"
  by simp

theorem fullscreen_request_idempotent_witness:
  "fullscreen (opts (new_window 100 100 800 600)) = current_fs (new_window 100 100 800 600) \<and>
   gui_thread_control desktop (new_window 100 100 800 600) VOCTRL_FULLSCREEN =
     Some (VO_TRUE, new_window 100 100 800 600, None)"
proof -
  have same: "fullscreen (opts (new_window 100 100 800 600)) = current_fs (new_window 100 100 800 600)"
    by (simp add: new_window_def player_opts_def)
  show ?thesis
    using same fullscreen_request_idempotent [OF same, of desktop] by blast
qed

section \<open>Fullscreen and back\<close>

text \<open>
  C3, as the claim states it, fails: a window larger than its screen is not restored.
  On two monitors of 1920 by 1080 pixels, a window stretched over both, with a client
  area of 3000 by 900 pixels at (200, 100), comes back from fullscreen with a client
  area of 1904 by 571 pixels at (748, 264).
\<close>

theorem fullscreen_round_trip_larger_than_screen:
  "geometry spanning_window = (200, 100, 3000, 900) \<and>
   \<not> current_fs spanning_window \<and>
   map_option geometry (enter_exit_fullscreen dual_desktop dual_desktop spanning_window) =
     Some (748, 264, 1904, 571)"
  by code_simp

text \<open>
  C3, amended. Take a window in windowed mode whose size, borders included when
  \<^verbatim>\<open>fit_border\<close> is set, is no larger than the screen it is given when it leaves
  fullscreen (\<open>sc\<close>), \<open>f\<close> being the frame of its windowed style. Entering fullscreen and
  then leaving it, with nothing in between, restores \<open>window_x\<close>, \<open>window_y\<close>, \<open>dw\<close> and
  \<open>dh\<close> exactly.
\<close>

theorem fullscreen_round_trip:
  assumes "\<not> current_fs w" "window w = Some n"
    and "sc = screenrc (update_screen_rect pf2 w)"
    and "f = frame_of_style pf2 (update_style w (gwl_style n))"
    and "dw w + (if fit_border (opts w) then right f - left f else 0) \<le> x1 sc - x0 sc"
    and "dh w + (if fit_border (opts w) then bottom f - top f else 0) \<le> y1 sc - y0 sc"
  shows "map_option geometry (enter_exit_fullscreen pf1 pf2 w) = Some (geometry w)"
proof (cases "parent w = 0")
  case False
  let ?wT = "w\<lparr>opts := (opts w)\<lparr>fullscreen := True\<rparr>\<rparr>"
  have "reinit_window_state pf1 ?wT = Some ?wT"
    using False by (simp add: reinit_window_state_embedded)
  then have "set_fullscreen pf1 True w = Some (VO_TRUE, ?wT, None)"
    using assms(1) by (simp add: set_fullscreen_def handled_def)
  moreover have "set_fullscreen pf2 False ?wT =
      Some (VO_TRUE, ?wT\<lparr>opts := (opts ?wT)\<lparr>fullscreen := False\<rparr>\<rparr>, None)"
    using assms(1) by (simp add: set_fullscreen_def)
  ultimately show ?thesis
    by (simp add: enter_exit_fullscreen_def)
next
  case True
  let ?wT = "w\<lparr>opts := (opts w)\<lparr>fullscreen := True\<rparr>\<rparr>"
  obtain w1 where w1: "reinit_window_state pf1 ?wT = Some w1"
    using reinit_window_state_fullscreen_total [of ?wT pf1] by auto
  have fs1: "current_fs w1" and opts1: "opts w1 = opts ?wT" and par1: "parent w1 = 0"
    using reinit_window_state_frame [OF w1] True by simp_all
  have prev1: "prev_bounds w1 = geometry w"
    using reinit_window_state_prev_bounds [OF w1] True assms(1) by simp
  obtain n1 where n1: "window w1 = Some n1"
    using reinit_window_state_style(2) [OF w1] True assms(2) by auto
  have style1: "gwl_style n1 = update_style (?wT\<lparr>current_fs := True\<rparr>) (gwl_style n)"
    using reinit_window_state_style(1) [OF w1, of n] True assms(2) n1 by simp
  let ?wF = "w1\<lparr>opts := (opts w1)\<lparr>fullscreen := False\<rparr>\<rparr>"
  have sc: "screenrc (update_screen_rect pf2 (?wF\<lparr>current_fs := False\<rparr>)) = sc"
    unfolding assms(3) using assms(1) opts1
    by (intro screenrc_update_screen_rect_cong) simp_all
  have "update_style (?wF\<lparr>current_fs := False\<rparr>) (gwl_style n1) =
        update_style (?wF\<lparr>current_fs := False\<rparr>) (gwl_style n)"
    by (simp only: style1 update_style_absorb)
  also have "\<dots> = update_style w (gwl_style n)"
    using assms(1) opts1 by (intro update_style_cong) simp_all
  finally have f: "frame_of_style pf2 (update_style (?wF\<lparr>current_fs := False\<rparr>) (gwl_style n1)) = f"
    by (simp add: assms(4))
  have pw: "prev_width ?wF = dw w" "prev_height ?wF = dh w"
    using prev1 by (simp_all add: prev_bounds_def geometry_def)
  have fit: "fit_border (opts ?wF) = fit_border (opts w)"
    using opts1 by simp
  have "\<exists>w'. reinit_window_state pf2 ?wF = Some w' \<and>
          geometry w' = (if current_fs ?wF then prev_bounds ?wF else geometry ?wF)"
  proof (rule reinit_window_state_windowed_fits [where n = n1, OF _ _ _ sc [symmetric] f [symmetric]])
    show "parent ?wF = 0" using par1 by simp
    show "\<not> fullscreen (opts ?wF)" by simp
    show "window ?wF = Some n1" using n1 by simp
    show "(if current_fs ?wF then prev_width ?wF else dw ?wF) +
       (if fit_border (opts ?wF) then right f - left f else 0) \<le> x1 sc - x0 sc"
      using assms(5) fs1 pw fit by simp
    show "(if current_fs ?wF then prev_height ?wF else dh ?wF) +
       (if fit_border (opts ?wF) then bottom f - top f else 0) \<le> y1 sc - y0 sc"
      using assms(6) fs1 pw fit by simp
  qed
  then obtain w2 where w2: "reinit_window_state pf2 ?wF = Some w2" and g2: "geometry w2 = geometry w"
    using fs1 prev1 by auto
  have "set_fullscreen pf1 True w = Some (VO_TRUE, w1, None)"
    using assms(1) w1 by (simp add: set_fullscreen_def handled_def)
  moreover have "set_fullscreen pf2 False w1 = Some (VO_TRUE, w2, None)"
    using fs1 w2 by (simp add: set_fullscreen_def handled_def)
  ultimately show ?thesis
    using g2 by (simp add: enter_exit_fullscreen_def)
qed


theorem fullscreen_round_trip_witness:
  "\<not> current_fs (new_window 100 100 800 600) \<and>
   window (new_window 100 100 800 600) =
     Some \<lparr>gwl_style = 0xCF0000, wnd_layer = HWND_NOTOPMOST,
           wnd_rect = \<lparr>left = 92, top = 69, right = 908, bottom = 708\<rparr>, wnd_shown = True\<rparr> \<and>
   screenrc (update_screen_rect desktop (new_window 100 100 800 600)) =
     \<lparr>x0 = 0, y0 = 0, x1 = 1920, y1 = 1080\<rparr> \<and>
   frame_of_style desktop (update_style (new_window 100 100 800 600) 0xCF0000) =
     \<lparr>left = - 8, top = - 31, right = 8, bottom = 8\<rparr> \<and>
   fit_border (opts (new_window 100 100 800 600)) \<and>
   dw (new_window 100 100 800 600) + (8 - (- 8)) \<le> 1920 - 0 \<and>
   dh (new_window 100 100 800 600) + (8 - (- 31)) \<le> 1080 - 0 \<and>
   map_option geometry (enter_exit_fullscreen desktop desktop (new_window 100 100 800 600)) =
     Some (100, 100, 800, 600)"
proof -
  let ?w = "new_window 100 100 800 600"
  let ?n = "\<lparr>gwl_style = 0xCF0000, wnd_layer = HWND_NOTOPMOST,
           wnd_rect = \<lparr>left = 92, top = 69, right = 908, bottom = 708\<rparr>, wnd_shown = True\<rparr>"
  let ?sc = "\<lparr>x0 = 0, y0 = 0, x1 = 1920, y1 = 1080\<rparr>"
  let ?f = "\<lparr>left = - 8, top = - 31, right = 8, bottom = 8\<rparr>"
  have windowed: "\<not> current_fs ?w"
    by (simp add: new_window_def)
  have win: "window ?w = Some ?n"
    by (simp add: new_window_def)
  have sc: "screenrc (update_screen_rect desktop ?w) = ?sc"
    by code_simp
  have f: "frame_of_style desktop (update_style ?w 0xCF0000) = ?f"
    by code_simp
  have fit: "fit_border (opts ?w)"
    by (simp add: new_window_def player_opts_def)
  have wide: "dw ?w + (8 - (- 8)) \<le> 1920 - 0"
    by (simp add: new_window_def)
  have high: "dh ?w + (8 - (- 31)) \<le> 1080 - 0"
    by (simp add: new_window_def)
  have g: "geometry ?w = (100, 100, 800, 600)"
    by (simp add: geometry_def new_window_def)
  have "map_option geometry (enter_exit_fullscreen desktop desktop ?w) = Some (geometry ?w)"
  proof (rule fullscreen_round_trip [OF windowed win sc [symmetric]])
    show "?f = frame_of_style desktop (update_style ?w (gwl_style ?n))"
      using f by simp
    show "dw ?w + (if fit_border (opts ?w) then right ?f - left ?f else 0) \<le> x1 ?sc - x0 ?sc"
      using wide fit by simp
    show "dh ?w + (if fit_border (opts ?w) then bottom ?f - top ?f else 0) \<le> y1 ?sc - y0 ?sc"
      using high fit by simp
  qed
  then have restored:
    "map_option geometry (enter_exit_fullscreen desktop desktop ?w) = Some (100, 100, 800, 600)"
    by (simp only: g)
  show ?thesis
    by (intro conjI windowed win sc f fit wide high restored)
qed

section \<open>The saved window bounds\<close>

text \<open>
  C4, as the claim states it, fails: the saved bounds are also written while the window
  is fullscreen, by the request that sets the unfullscreened window size. On the
  fullscreen window with the saved bounds (300, 200, 800, 600), the request for 640 by
  480 pixels stores (380, 260, 640, 480), and the window stays fullscreen.
\<close>

theorem prev_bounds_written_while_fullscreen:
  "current_fs fullscreen_window \<and>
   prev_bounds fullscreen_window = (300, 200, 800, 600) \<and>
   map_option prev_bounds
     (state_of (gui_thread_control desktop fullscreen_window (VOCTRL_SET_UNFS_WINDOW_SIZE 640 480))) =
     Some (380, 260, 640, 480) \<and>
   map_option current_fs
     (state_of (gui_thread_control desktop fullscreen_window (VOCTRL_SET_UNFS_WINDOW_SIZE 640 480))) =
     Some True"
  by code_simp

text \<open>
  C4, amended. The reconfiguration \<^verbatim>\<open>reinit_window_state\<close> writes \<open>prev_x\<close>, \<open>prev_y\<close>,
  \<open>prev_width\<close> and \<open>prev_height\<close> only on the switch from windowed mode to fullscreen,
  where it stores the window bounds, and never while the window is fullscreen already:
  run a second time with fullscreen still wanted, it leaves the saved bounds as the
  first run left them. A control request changes the saved bounds only by that switch
  or, while the window is fullscreen, as the request that sets the unfullscreened
  window size.
\<close>

theorem prev_bounds_saved_on_fullscreen_entry:
  "(reinit_window_state pf w = Some w' \<and> prev_bounds w' \<noteq> prev_bounds w \<longrightarrow>
      \<not> current_fs w \<and> current_fs w' \<and> prev_bounds w' = geometry w) \<and>
   (fullscreen (opts w) \<longrightarrow>
      (\<exists>w1 w2. reinit_window_state pf1 w = Some w1 \<and> reinit_window_state pf2 w1 = Some w2 \<and>
         prev_bounds w2 = prev_bounds w1)) \<and>
   (gui_thread_control pf w req = Some (st, v, out) \<and> prev_bounds v \<noteq> prev_bounds w \<longrightarrow>
      (\<not> current_fs w \<and> current_fs v) \<or>
      (\<exists>s0 s1. req = VOCTRL_SET_UNFS_WINDOW_SIZE s0 s1 \<and> current_fs w))"
proof (intro conjI impI)
  assume a: "reinit_window_state pf w = Some w' \<and> prev_bounds w' \<noteq> prev_bounds w"
  then have r: "reinit_window_state pf w = Some w'" and ne: "prev_bounds w' \<noteq> prev_bounds w"
    by simp_all
  from reinit_window_state_prev_bounds [OF r] ne
  have c: "parent w = 0 \<and> \<not> current_fs w \<and> fullscreen (opts w)" and p: "prev_bounds w' = geometry w"
    by (auto split: if_split_asm)
  from c show "\<not> current_fs w" by simp
  from c reinit_window_state_frame(1) [OF r] show "current_fs w'" by simp
  from p show "prev_bounds w' = geometry w" .
next
  assume fs: "fullscreen (opts w)"
  obtain w1 where w1: "reinit_window_state pf1 w = Some w1"
    using reinit_window_state_fullscreen_total [OF fs, of pf1] by auto
  have o1: "opts w1 = opts w" and p1: "parent w1 = parent w"
    and c1: "current_fs w1 = (if parent w = 0 then fullscreen (opts w) else current_fs w)"
    using reinit_window_state_frame [OF w1] by simp_all
  obtain w2 where w2: "reinit_window_state pf2 w1 = Some w2"
    using reinit_window_state_fullscreen_total [of w1 pf2] fs o1 by auto
  have "prev_bounds w2 = prev_bounds w1"
    using reinit_window_state_prev_bounds [OF w2] c1 p1 fs by simp
  with w1 w2 show "\<exists>w1 w2. reinit_window_state pf1 w = Some w1 \<and>
      reinit_window_state pf2 w1 = Some w2 \<and> prev_bounds w2 = prev_bounds w1"
    by blast
next
  assume "gui_thread_control pf w req = Some (st, v, out) \<and> prev_bounds v \<noteq> prev_bounds w"
  then show "(\<not> current_fs w \<and> current_fs v) \<or>
      (\<exists>s0 s1. req = VOCTRL_SET_UNFS_WINDOW_SIZE s0 s1 \<and> current_fs w)"
    using gui_thread_control_prev_bounds by blast
qed

theorem prev_bounds_saved_on_fullscreen_entry_witness:
  "reinit_window_state desktop moved_window = Some fullscreen_window \<and>
   prev_bounds fullscreen_window \<noteq> prev_bounds moved_window \<and>
   \<not> current_fs moved_window \<and> current_fs fullscreen_window \<and>
   prev_bounds fullscreen_window = geometry moved_window \<and>
   fullscreen (opts moved_window) \<and>
   map_option prev_bounds (reinit_window_state desktop fullscreen_window) =
     Some (prev_bounds fullscreen_window) \<and>
   gui_thread_control desktop moved_window VOCTRL_FULLSCREEN =
     Some (VO_TRUE, fullscreen_window, None)"
proof -
  note inst = prev_bounds_saved_on_fullscreen_entry
    [of desktop moved_window fullscreen_window desktop desktop VOCTRL_FULLSCREEN VO_TRUE
       fullscreen_window None]
  have run: "reinit_window_state desktop moved_window = Some fullscreen_window"
    by code_simp
  have changed: "prev_bounds fullscreen_window \<noteq> prev_bounds moved_window"
    by (simp add: prev_bounds_def fullscreen_window_def moved_window_def new_window_def)
  have wanted: "fullscreen (opts moved_window)"
    by (simp add: moved_window_def player_opts_def)
  have req: "gui_thread_control desktop moved_window VOCTRL_FULLSCREEN =
      Some (VO_TRUE, fullscreen_window, None)"
    using run wanted by (simp add: handled_def moved_window_def new_window_def)
  from inst run changed have entry:
    "\<not> current_fs moved_window \<and> current_fs fullscreen_window \<and>
     prev_bounds fullscreen_window = geometry moved_window"
    by blast
  from inst wanted run have again:
    "map_option prev_bounds (reinit_window_state desktop fullscreen_window) =
       Some (prev_bounds fullscreen_window)"
    by auto
  show ?thesis
    using run changed wanted req entry again by blast
qed

section \<open>A window larger than the screen\<close>




end
